theory Spec2Isabelle
  imports Complex_Main "HOL-Library.Word" "HOL-Library.AList"
begin

section \<open>Data model\<close>

text \<open>
  The program is the SlideShare downloader of \<^verbatim>\<open>src/unnamed/part_000\<close> (package
  \<^verbatim>\<open>main\<close>) with the types of \<^verbatim>\<open>src/main.go\<close>. Go strings are byte strings and are
  modelled as \<^typ>\<open>string\<close>; file contents are lists of bytes.
\<close>

type_synonym byte = "8 word"
type_synonym bytes = "byte list"

text \<open>
  \<^verbatim>\<open>CustomAPIError{StatusCode, Detail}\<close> of \<^verbatim>\<open>main.go\<close>, and every other Go error value
  (\<^verbatim>\<open>fmt.Errorf\<close>, errors of the libraries), of which the program only ever reads the
  message.
\<close>

datatype go_error =
    CustomAPIError (StatusCode: int) (Detail: string)
  | PlainError string

fun Error :: "go_error \<Rightarrow> string" where
  "Error (CustomAPIError c d) = d"
| "Error (PlainError m) = m"

text \<open>\<^verbatim>\<open>type SlidesConversionType string\<close> and \<^verbatim>\<open>type QualityType string\<close> with their constants.\<close>

type_synonym SlidesConversionType = string
type_synonym QualityType = string

definition PDF :: SlidesConversionType where "PDF = ''PDF''"
definition PPTX :: SlidesConversionType where "PPTX = ''PPTX''"
definition ImagesZip :: SlidesConversionType where "ImagesZip = ''IMAGES_ZIP''"
definition HD :: QualityType where "HD = ''HD''"
definition SD :: QualityType where "SD = ''SD''"

text \<open>The fields of \<^verbatim>\<open>net/url\<close>'s \<^verbatim>\<open>URL\<close> that the program reads.\<close>

record URL =
  Host :: string
  Path :: string

text \<open>
  A slide of the manifest is a Go \<^verbatim>\<open>map[int]string\<close> from width to image URL. It is kept
  as an association list with one pair per key, read with \<^const>\<open>map_of\<close> and written with
  \<^const>\<open>AList.update\<close>, so that \<^verbatim>\<open>len(m) > 0\<close> can be computed.
\<close>

type_synonym slide = "(int \<times> string) list"

section \<open>Library functions on strings\<close>

text \<open>\<^verbatim>\<open>strings.Trim(s, cutset)\<close> for a cutset of ASCII characters (the program's is \<^verbatim>\<open>"/"\<close>): drops
  the leading and trailing bytes that are in the cutset.\<close>

definition Trim :: "string \<Rightarrow> string \<Rightarrow> string" where
  "Trim s cutset =
     rev (dropWhile (\<lambda>c. c \<in> set cutset) (rev (dropWhile (\<lambda>c. c \<in> set cutset) s)))"

text \<open>
  \<^verbatim>\<open>strings.Split(s, sep)\<close> for a separator of one byte: the pieces between the separators;
  a string without separator (also the empty string) gives one piece.
\<close>

fun split_from :: "string \<Rightarrow> string \<Rightarrow> char \<Rightarrow> string list" where
  "split_from cur [] sep = [cur]"
| "split_from cur (c # cs) sep =
     (if c = sep then cur # split_from [] cs sep else split_from (cur @ [c]) cs sep)"

definition Split :: "string \<Rightarrow> char \<Rightarrow> string list" where
  "Split s sep = split_from [] s sep"

text \<open>\<^verbatim>\<open>%d\<close> of \<^verbatim>\<open>fmt.Sprintf\<close>: the decimal digits of an integer.\<close>

fun digits :: "nat \<Rightarrow> string" where
  "digits n = (if n < 10 then [''0123456789'' ! n] else digits (n div 10) @ [''0123456789'' ! (n mod 10)])"

declare digits.simps [simp del]

definition Itoa :: "int \<Rightarrow> string" where
  "Itoa i = (if i < 0 then CHR ''-'' # digits (nat (- i)) else digits (nat i))"

section \<open>The environment and the state\<close>

text \<open>
  Everything the program obtains from its libraries and from the outside is a field of the
  record \<open>world\<close>: a function of the arguments the program passes. The program's own effects
  are on the record \<open>state\<close>. Floating-point numbers (\<^verbatim>\<open>float64\<close>) are kept abstract: they are
  the type \<open>'f\<close> with the four operations the program applies to them.
\<close>

datatype http_result =
    TransportError string
  | Response int bytes

record image =
  img_Width :: int
  img_Height :: int
  img_Pix :: bytes

record image_Config =
  cfg_Width :: int
  cfg_Height :: int

text \<open>What \<^verbatim>\<open>goquery\<close> finds in a page: the text of \<^verbatim>\<open>title\<close> and, for every element
  \<^verbatim>\<open>img[data-testid='vertical-slide-image']\<close> in document order, its \<^verbatim>\<open>srcset\<close> attribute.\<close>

record html_doc =
  doc_title :: string
  doc_srcsets :: "string option list"

text \<open>The document \<^verbatim>\<open>gofpdf\<close> builds: the arguments of \<^verbatim>\<open>gofpdf.New\<close>, and per page the images
  placed on it (file, x, y, width, height).\<close>

record 'f placed =
  pl_file :: string
  pl_x :: 'f
  pl_y :: 'f
  pl_w :: 'f
  pl_h :: 'f

record 'f Fpdf =
  orientationStr :: string
  unitStr :: string
  sizeStr :: string
  fontDirStr :: string
  pages :: "'f placed list list"

record 'f world =
  url_Parse :: "string \<Rightarrow> string + URL"
  http_Do :: "string \<Rightarrow> string \<Rightarrow> nat option \<Rightarrow> http_result"
  http_sends :: "string \<Rightarrow> string \<Rightarrow> nat option \<Rightarrow> nat"
  goquery_NewDocument :: "bytes \<Rightarrow> string + html_doc"
  image_Decode :: "bytes \<Rightarrow> string + image"
  image_DecodeConfig :: "bytes \<Rightarrow> string + image_Config"
  imaging_Clone :: "image \<Rightarrow> image"
  jpeg_Encode :: "image \<Rightarrow> int \<Rightarrow> string + bytes"
  os_TempDir :: string
  nextRandom :: "nat \<Rightarrow> string"
  os_OpenFile_err :: "string \<Rightarrow> string option"
  os_Getenv :: "string \<Rightarrow> string"
  time_Now_02012006 :: string
  f_of_int :: "int \<Rightarrow> 'f"
  f_div :: "'f \<Rightarrow> 'f \<Rightarrow> 'f"
  f_mul :: "'f \<Rightarrow> 'f \<Rightarrow> 'f"
  f_min :: "'f \<Rightarrow> 'f \<Rightarrow> 'f"
  pdf_GetPageSize :: "string \<Rightarrow> string \<Rightarrow> string \<Rightarrow> 'f \<times> 'f"
  pdf_Output :: "'f Fpdf \<Rightarrow> bytes option list \<Rightarrow> string + bytes"
  ppt_AddImageSlide :: "string \<Rightarrow> bytes option \<Rightarrow> string option"
  ppt_Save :: "(string \<times> bytes option) list \<Rightarrow> string + bytes"
  zip_Create :: "string \<Rightarrow> string option"
  io_Copy_err :: "string \<Rightarrow> string option"
  zip_Close :: "(string \<times> bytes) list \<Rightarrow> string + bytes"
  ftp_prepare :: "string \<Rightarrow> string option"
  ftp_Stor :: "string \<Rightarrow> bytes \<Rightarrow> string option"

text \<open>
  \<^item> \<open>http_Do method uri timeout\<close>: one call of \<^verbatim>\<open>client.Do\<close> (no timeout) or of
    \<^verbatim>\<open>client.DoTimeout\<close> (timeout in seconds) of \<^verbatim>\<open>fasthttp\<close>; a transport error (a timeout
    is one) or a response with its status code and body.
  \<^item> \<open>http_sends method uri timeout\<close>: how many times the client sends the request during
    that one call. The client is the default one (\<^verbatim>\<open>&fasthttp.Client{}\<close>, lines 57 and 159),
    which sends an idempotent request again when the connection fails before a response has
    come, up to its limit of attempts; the program sets no limit of its own.
  \<^item> \<open>nextRandom k\<close>: the random part of the name of the \<open>k\<close>-th temporary file.
  \<^item> \<open>os_OpenFile_err name\<close>: why creating the file fails, when it fails for a reason other
    than the name being taken.
  \<^item> \<open>time_Now_02012006\<close>: \<^verbatim>\<open>time.Now().Format("02012006")\<close>.
  \<^item> \<open>pdf_GetPageSize orientation unit size\<close>: \<^verbatim>\<open>GetPageSize\<close> of a document made with these
    arguments of \<^verbatim>\<open>gofpdf.New\<close> (the program adds pages of the default format only).
  \<^item> \<open>zip_Create name\<close>, \<open>io_Copy_err path\<close>: the error, if any, of creating the archive entry
    and of copying the file into it.
  \<^item> \<open>ftp_prepare remoteDir\<close>: the error, if any, of reading the port, dialling, logging in and
    entering (creating where missing) the directories of \<open>remoteDir\<close>.
\<close>

text \<open>
  The state: the files of local storage, the number of temporary names drawn so far, the
  calls of the HTTP client the program has made (method, URI, timeout in seconds), the
  requests the client has sent in those calls (method, URI), and the files stored on the FTP
  server (remote path, contents), the last three in order.
\<close>

record state =
  files :: "string \<rightharpoonup> bytes"
  drawn :: nat
  requests :: "(string \<times> string \<times> nat option) list"
  sent :: "(string \<times> string) list"
  remote :: "(string \<times> bytes) list"

text \<open>
  \<^verbatim>\<open>os.Remove(name)\<close>, whose error the program ignores everywhere: a file that exists is
  removed, and removing a file that does not exist changes nothing.
\<close>

definition Remove :: "state \<Rightarrow> string \<Rightarrow> state" where
  "Remove st name = st\<lparr>files := (files st)(name := None)\<rparr>"

text \<open>
  \<^verbatim>\<open>os.CreateTemp(dir, pattern)\<close>: the name is the directory (the system's when \<open>dir\<close> is
  empty), the pattern's part before its last \<^verbatim>\<open>*\<close>, a random string, and the part after it;
  the file is created exclusively (\<^verbatim>\<open>O_EXCL\<close>), empty. The library draws a new random string
  when the name is taken and gives up after 10000 draws; here the draw that is used is the
  last one, so a taken name is the failure.
\<close>

definition prefixAndSuffix :: "string \<Rightarrow> string \<times> string" where
  "prefixAndSuffix pattern =
     (if CHR ''*'' \<in> set pattern
      then (rev (tl (dropWhile (\<lambda>c. c \<noteq> CHR ''*'') (rev pattern))),
            rev (takeWhile (\<lambda>c. c \<noteq> CHR ''*'') (rev pattern)))
      else (pattern, []))"

definition joinPath :: "string \<Rightarrow> string \<Rightarrow> string" where
  "joinPath dir name =
     (if dir \<noteq> [] \<and> last dir = CHR ''/'' then dir @ name else dir @ ''/'' @ name)"

definition CreateTemp :: "'f world \<Rightarrow> state \<Rightarrow> string \<Rightarrow> string \<Rightarrow> (string + string) \<times> state" where
  "CreateTemp w st dir pattern =
     (let d = (if dir = [] then os_TempDir w else dir);
          (prefix, suffix) = prefixAndSuffix pattern;
          name = joinPath d prefix @ nextRandom w (drawn st) @ suffix;
          st1 = st\<lparr>drawn := Suc (drawn st)\<rparr>
      in if files st name \<noteq> None then (Inl ''file exists'', st1)
         else (case os_OpenFile_err w name of
                 Some e \<Rightarrow> (Inl e, st1)
               | None \<Rightarrow> (Inr name, st1\<lparr>files := (files st1)(name \<mapsto> [])\<rparr>)))"

section \<open>The bounded fetcher\<close>

text \<open>
  \<^verbatim>\<open>fetchImage\<close> (lines 111-152). The context and the client carry nothing the function
  reads. The one call of the client (line 122) is one entry of \<open>requests\<close>; what the client
  sends during it goes to \<open>sent\<close>. When the encoding fails (line 148) the function returns without removing the
  temporary file it has created; the file is kept here as it was created, empty (the encoder
  may have written a part of the image to it).
\<close>

definition fetchImage :: "'f world \<Rightarrow> state \<Rightarrow> string \<Rightarrow> (go_error + string) \<times> state" where
  "fetchImage w st urlStr =
     (let st1 = st\<lparr>requests := requests st @ [(''GET'', urlStr, Some 20)],
                     sent := sent st @ replicate (http_sends w ''GET'' urlStr (Some 20)) (''GET'', urlStr)\<rparr>
      in case http_Do w ''GET'' urlStr (Some 20) of
           TransportError e \<Rightarrow> (Inl (PlainError (''error fetching image: '' @ e)), st1)
         | Response status body \<Rightarrow>
             if status \<noteq> 200
             then (Inl (PlainError (''failed to fetch image: '' @ urlStr @ '' (status '' @ Itoa status @ '')'')), st1)
             else (case image_Decode w body of
                     Inl e \<Rightarrow> (Inl (PlainError e), st1)
                   | Inr img \<Rightarrow>
                       (case CreateTemp w st1 [] ''slide-*.jpg'' of
                          (Inl e, st2) \<Rightarrow> (Inl (PlainError e), st2)
                        | (Inr tmpFile, st2) \<Rightarrow>
                            (case jpeg_Encode w (imaging_Clone w img) 90 of
                               Inl e \<Rightarrow> (Inl (PlainError e), st2)
                             | Inr jpg \<Rightarrow>
                                 (Inr tmpFile, st2\<lparr>files := (files st2)(tmpFile \<mapsto> jpg)\<rparr>)))))"

text \<open>
  \<^verbatim>\<open>fetchImagesConcurrently\<close> (lines 154-196). The loop starts one goroutine per URL, each
  with its index and URL; \<^verbatim>\<open>wg.Wait()\<close> returns when all have run. A goroutine's effects on
  the shared state are those of its one \<^verbatim>\<open>fetchImage\<close> and one write to its slot of
  \<^verbatim>\<open>results\<close> or \<^verbatim>\<open>errors\<close>; goroutines are run one after the other in an order the scheduler
  chooses: \<open>choices\<close> gives, at each step, which of the goroutines still pending is next
  (taken modulo their number; the first when the list is exhausted), so every list of
  choices is a schedule and every order of completion is the schedule of some list.
\<close>

type_synonym slots = "state \<times> string list \<times> go_error option list"

definition goroutine :: "'f world \<Rightarrow> nat \<times> string \<Rightarrow> slots \<Rightarrow> slots" where
  "goroutine w t acc =
     (case (t, acc) of ((i, urlStr), (st, results, errors)) \<Rightarrow>
        (case fetchImage w st urlStr of
           (Inl err, st1) \<Rightarrow> (st1, results, errors[i := Some err])
         | (Inr filePath, st1) \<Rightarrow> (st1, results[i := filePath], errors)))"

definition pick :: "nat list \<Rightarrow> nat \<Rightarrow> nat" where
  "pick choices n = (case choices of [] \<Rightarrow> 0 | c # _ \<Rightarrow> c mod n)"

function run_goroutines :: "'f world \<Rightarrow> nat list \<Rightarrow> (nat \<times> string) list \<Rightarrow> slots \<Rightarrow> slots" where
  "run_goroutines w choices pending acc =
     (if pending = [] then acc
      else let k = pick choices (length pending)
           in run_goroutines w (tl choices) (take k pending @ drop (Suc k) pending)
                (goroutine w (pending ! k) acc))"
  by pat_completeness auto
termination
  by (relation "measure (\<lambda>(w, choices, pending, acc). length pending)")
     (auto simp: pick_def min_def not_le split: list.splits)

declare run_goroutines.simps [simp del]

text \<open>The scan of \<^verbatim>\<open>errors\<close> (lines 184-193) acts on the first error that is not \<^verbatim>\<open>nil\<close>.\<close>

fun first_error :: "go_error option list \<Rightarrow> go_error option" where
  "first_error [] = None"
| "first_error (None # es) = first_error es"
| "first_error (Some e # es) = Some e"

fun remove_results :: "state \<Rightarrow> string list \<Rightarrow> state" where
  "remove_results st [] = st"
| "remove_results st (file # rest) =
     remove_results (if file \<noteq> [] then Remove st file else st) rest"

text \<open>
  The semaphore admits a goroutine when a unit is free. With a ceiling below one no unit
  ever is, \<^verbatim>\<open>Acquire\<close> waits for the background context, which is never done, and the call
  does not return: the result \<open>None\<close>. (That \<^verbatim>\<open>Acquire\<close> fails, line 167, needs a context
  that is done, and so does not happen.)
\<close>

definition fetchImagesConcurrently ::
  "'f world \<Rightarrow> nat list \<Rightarrow> state \<Rightarrow> string list \<Rightarrow> int \<Rightarrow> ((go_error + string list) \<times> state) option" where
  "fetchImagesConcurrently w choices st urls maxConcurrency =
     (if urls \<noteq> [] \<and> maxConcurrency < 1 then None
      else
        (case run_goroutines w choices (zip [0..<length urls] urls)
                (st, replicate (length urls) [], replicate (length urls) None) of
           (st1, results, errors) \<Rightarrow>
             (case first_error errors of
                Some err \<Rightarrow>
                  Some (Inl (CustomAPIError 500 (''Failed to fetch images: '' @ Error err)),
                        remove_results st1 results)
              | None \<Rightarrow> Some (Inr results, st1))))"

section \<open>The exporters\<close>

text \<open>\<^verbatim>\<open>os.Open\<close> fails on a file that does not exist, with this error.\<close>

definition open_error :: "string \<Rightarrow> go_error" where
  "open_error name = PlainError (''open '' @ name @ '': no such file or directory'')"

subsection \<open>PDF\<close>

text \<open>
  The calls into \<^verbatim>\<open>gofpdf\<close>: \<^verbatim>\<open>New\<close> starts a document without pages, \<^verbatim>\<open>AddPage\<close> appends an
  empty page, \<^verbatim>\<open>Image\<close> places an image on the last page (the program never calls it on a
  document without pages; there it is taken to do nothing).
\<close>

definition New :: "string \<Rightarrow> string \<Rightarrow> string \<Rightarrow> string \<Rightarrow> 'f Fpdf" where
  "New orientation unit sz fontDir =
     \<lparr>orientationStr = orientation, unitStr = unit, sizeStr = sz, fontDirStr = fontDir, pages = []\<rparr>"

definition AddPage :: "'f Fpdf \<Rightarrow> 'f Fpdf" where
  "AddPage pdf = pdf\<lparr>pages := pages pdf @ [[]]\<rparr>"

definition Image :: "'f Fpdf \<Rightarrow> string \<Rightarrow> 'f \<Rightarrow> 'f \<Rightarrow> 'f \<Rightarrow> 'f \<Rightarrow> 'f Fpdf" where
  "Image pdf imageNameStr x y w h =
     (if pages pdf = [] then pdf
      else pdf\<lparr>pages := butlast (pages pdf) @
             [last (pages pdf) @ [\<lparr>pl_file = imageNameStr, pl_x = x, pl_y = y, pl_w = w, pl_h = h\<rparr>]]\<rparr>)"

text \<open>The loop of \<^verbatim>\<open>convertImagePathsToPDF\<close> (lines 202-224).\<close>

fun pdf_loop :: "'f world \<Rightarrow> state \<Rightarrow> 'f Fpdf \<Rightarrow> string list \<Rightarrow> go_error + 'f Fpdf" where
  "pdf_loop w st pdf [] = Inr pdf"
| "pdf_loop w st pdf (imgPath # rest) =
     (case files st imgPath of
        None \<Rightarrow> Inl (open_error imgPath)
      | Some file \<Rightarrow>
          (case image_DecodeConfig w file of
             Inl e \<Rightarrow> Inl (PlainError e)
           | Inr img \<Rightarrow>
               (let width = f_of_int w (cfg_Width img);
                    height = f_of_int w (cfg_Height img);
                    (pageWidth, pageHeight) =
                       pdf_GetPageSize w (orientationStr pdf) (unitStr pdf) (sizeStr pdf);
                    ratio = f_min w (f_div w pageWidth width) (f_div w pageHeight height);
                    width' = f_mul w width ratio;
                    height' = f_mul w height ratio
                in pdf_loop w st
                     (Image (AddPage pdf) imgPath (f_of_int w 0) (f_of_int w 0) width' height')
                     rest)))"

text \<open>
  \<^verbatim>\<open>convertImagePathsToPDF\<close> (lines 199-227). \<^verbatim>\<open>OutputFileAndClose\<close> writes the document,
  whose bytes depend on the document and on the images' files; when it fails the file at
  \<open>pdfPath\<close> is left as it was.
\<close>

definition convertImagePathsToPDF ::
  "'f world \<Rightarrow> state \<Rightarrow> string list \<Rightarrow> string \<Rightarrow> go_error option \<times> state" where
  "convertImagePathsToPDF w st imagePaths pdfPath =
     (case pdf_loop w st (New ''P'' ''mm'' ''A4'' []) imagePaths of
        Inl err \<Rightarrow> (Some err, st)
      | Inr pdf \<Rightarrow>
          (case pdf_Output w pdf (map (files st) imagePaths) of
             Inl e \<Rightarrow> (Some (PlainError e), st)
           | Inr out \<Rightarrow> (None, st\<lparr>files := (files st)(pdfPath \<mapsto> out)\<rparr>)))"

subsection \<open>Publishing\<close>

text \<open>\<^verbatim>\<open>strings.Join\<close>.\<close>

fun Join :: "string list \<Rightarrow> string \<Rightarrow> string" where
  "Join [] sep = []"
| "Join [x] sep = x"
| "Join (x # y # rest) sep = x @ sep @ Join (y # rest) sep"

text \<open>
  \<^verbatim>\<open>uploadToFTP\<close> (lines 230-297). The exchange with the server up to the last directory
  (lines 231-282) is the one answer \<open>ftp_prepare\<close> of the environment; then the local file is
  opened and stored under the last part of the remote path.
\<close>

definition uploadToFTP :: "'f world \<Rightarrow> state \<Rightarrow> string \<Rightarrow> string \<Rightarrow> go_error option \<times> state" where
  "uploadToFTP w st filePath remotePath =
     (let dirs = Split remotePath (CHR ''/'');
          remoteDir = Join (butlast dirs) ''/'';
          remoteFile = last dirs
      in case ftp_prepare w remoteDir of
           Some e \<Rightarrow> (Some (PlainError e), st)
         | None \<Rightarrow>
             (case files st filePath of
                None \<Rightarrow> (Some (open_error filePath), st)
              | Some file \<Rightarrow>
                  (case ftp_Stor w remoteFile file of
                     Some e \<Rightarrow> (Some (PlainError e), st)
                   | None \<Rightarrow> (None, st\<lparr>remote := remote st @ [(remotePath, file)]\<rparr>))))"

text \<open>\<^verbatim>\<open>os.Stat(name)\<close> followed by \<^verbatim>\<open>Size()\<close>.\<close>

definition Stat_Size :: "state \<Rightarrow> string \<Rightarrow> go_error + int" where
  "Stat_Size st name =
     (case files st name of
        None \<Rightarrow> Inl (PlainError (''stat '' @ name @ '': no such file or directory''))
      | Some file \<Rightarrow> Inr (int (length file)))"

definition ftpPath_of :: "'f world \<Rightarrow> string \<Rightarrow> string" where
  "ftpPath_of w filename = (''SS_DL/'' @ time_Now_02012006 w) @ ''/'' @ filename"

type_synonym converted = "(go_error + string \<times> int) \<times> state"

subsection \<open>\<^verbatim>\<open>ConvertURLsToPDF\<close> (lines 300-348)\<close>

text \<open>
  A deferred call runs when the function returns, the last deferred first. \<open>exportPDF\<close> is
  the part of the body after the test for an empty list (lines 316-347), with the removal of
  the PDF file deferred at line 322; \<open>ConvertURLsToPDF\<close> is the whole, with the removal of the
  images deferred at line 306.
\<close>

definition exportPDF :: "'f world \<Rightarrow> state \<Rightarrow> string list \<Rightarrow> string \<Rightarrow> converted" where
  "exportPDF w st imagePaths pdfFilename =
     (case CreateTemp w st [] ''slides-*.pdf'' of
        (Inl e, st1) \<Rightarrow> (Inl (PlainError e), st1)
      | (Inr tmpPDF, st1) \<Rightarrow>
          (case (case convertImagePathsToPDF w st1 imagePaths tmpPDF of
                   (Some err, st2) \<Rightarrow> (Inl (CustomAPIError 500 (Error err)), st2)
                 | (None, st2) \<Rightarrow>
                     (let ftpPath = ftpPath_of w pdfFilename
                      in case uploadToFTP w st2 tmpPDF ftpPath of
                           (Some err, st3) \<Rightarrow>
                             (Inl (CustomAPIError 500 (''FTP upload failed: '' @ Error err)), st3)
                         | (None, st3) \<Rightarrow>
                             (case Stat_Size st3 tmpPDF of
                                Inl err \<Rightarrow> (Inl err, st3)
                              | Inr sz \<Rightarrow> (Inr (ftpPath, sz), st3)))) of
             (r, st4) \<Rightarrow> (r, Remove st4 tmpPDF)))"

definition ConvertURLsToPDF ::
  "'f world \<Rightarrow> nat list \<Rightarrow> state \<Rightarrow> string list \<Rightarrow> string \<Rightarrow> converted option" where
  "ConvertURLsToPDF w choices st imageURLs pdfFilename =
     (case fetchImagesConcurrently w choices st imageURLs 25000 of
        None \<Rightarrow> None
      | Some (Inl err, st1) \<Rightarrow> Some (Inl err, st1)
      | Some (Inr imagePaths, st1) \<Rightarrow>
          (case (if length imagePaths = 0
                 then (Inl (CustomAPIError 500 ''No images to convert to PDF''), st1)
                 else exportPDF w st1 imagePaths pdfFilename) of
             (r, st2) \<Rightarrow> Some (r, foldl Remove st2 imagePaths)))"

subsection \<open>\<^verbatim>\<open>ConvertURLsToPPTX\<close> (lines 351-406)\<close>

text \<open>The presentation of \<^verbatim>\<open>GoPPT\<close> is the list of its image slides (path and file read).\<close>

fun pptx_loop ::
  "'f world \<Rightarrow> state \<Rightarrow> (string \<times> bytes option) list \<Rightarrow> string list \<Rightarrow> go_error + (string \<times> bytes option) list" where
  "pptx_loop w st p [] = Inr p"
| "pptx_loop w st p (imgPath # rest) =
     (case ppt_AddImageSlide w imgPath (files st imgPath) of
        Some e \<Rightarrow> Inl (PlainError (''failed to add image to slide: '' @ e))
      | None \<Rightarrow> pptx_loop w st (p @ [(imgPath, files st imgPath)]) rest)"

definition exportPPTX ::
  "'f world \<Rightarrow> state \<Rightarrow> (string \<times> bytes option) list \<Rightarrow> string \<Rightarrow> converted" where
  "exportPPTX w st p pptxFilename =
     (case CreateTemp w st [] ''slides-*.pptx'' of
        (Inl e, st1) \<Rightarrow> (Inl (PlainError e), st1)
      | (Inr tmpPPTX, st1) \<Rightarrow>
          (case (case ppt_Save w p of
                   Inl e \<Rightarrow> (Inl (PlainError (''failed to save PPTX: '' @ e)), st1)
                 | Inr out \<Rightarrow>
                     (let st2 = st1\<lparr>files := (files st1)(tmpPPTX \<mapsto> out)\<rparr>;
                          ftpPath = ftpPath_of w pptxFilename
                      in case uploadToFTP w st2 tmpPPTX ftpPath of
                           (Some err, st3) \<Rightarrow>
                             (Inl (PlainError (''FTP upload failed: '' @ Error err)), st3)
                         | (None, st3) \<Rightarrow>
                             (case Stat_Size st3 tmpPPTX of
                                Inl err \<Rightarrow> (Inl err, st3)
                              | Inr sz \<Rightarrow> (Inr (ftpPath, sz), st3)))) of
             (r, st4) \<Rightarrow> (r, Remove st4 tmpPPTX)))"

definition ConvertURLsToPPTX ::
  "'f world \<Rightarrow> nat list \<Rightarrow> state \<Rightarrow> string list \<Rightarrow> string \<Rightarrow> converted option" where
  "ConvertURLsToPPTX w choices st imageURLs pptxFilename =
     (case fetchImagesConcurrently w choices st imageURLs 10 of
        None \<Rightarrow> None
      | Some (Inl err, st1) \<Rightarrow> Some (Inl err, st1)
      | Some (Inr imagePaths, st1) \<Rightarrow>
          (case (case pptx_loop w st1 [] imagePaths of
                   Inl err \<Rightarrow> (Inl err, st1)
                 | Inr p \<Rightarrow> exportPPTX w st1 p pptxFilename) of
             (r, st2) \<Rightarrow> Some (r, foldl Remove st2 imagePaths)))"

subsection \<open>\<^verbatim>\<open>ConvertURLsToZip\<close> (lines 409-478)\<close>

text \<open>
  The archive under construction is the list of its entries, name and bytes, in the order
  they were written. The loop of lines 430-453, from index \<open>i\<close>:
\<close>

fun zip_loop ::
  "'f world \<Rightarrow> state \<Rightarrow> nat \<Rightarrow> (string \<times> bytes) list \<Rightarrow> string list \<Rightarrow> go_error + (string \<times> bytes) list" where
  "zip_loop w st i zipWriter [] = Inr zipWriter"
| "zip_loop w st i zipWriter (imgPath # rest) =
     (case files st imgPath of
        None \<Rightarrow> Inl (CustomAPIError 500 (''Failed to open image: '' @ Error (open_error imgPath)))
      | Some file \<Rightarrow>
          (let entryName = ''image_'' @ Itoa (int i + 1) @ ''.jpg''
           in case zip_Create w entryName of
                Some e \<Rightarrow> Inl (CustomAPIError 500 (''Failed to create zip entry: '' @ e))
              | None \<Rightarrow>
                  (case io_Copy_err w imgPath of
                     Some e \<Rightarrow> Inl (CustomAPIError 500 (''Failed to write to zip: '' @ e))
                   | None \<Rightarrow> zip_loop w st (Suc i) (zipWriter @ [(entryName, file)]) rest)))"

text \<open>
  The archive (lines 429-458): the loop, then \<^verbatim>\<open>zipWriter.Close()\<close>, which gives the bytes
  of the archive file. The result has the entries and those bytes.
\<close>

definition writeZip ::
  "'f world \<Rightarrow> state \<Rightarrow> string list \<Rightarrow> go_error + (string \<times> bytes) list \<times> bytes" where
  "writeZip w st imagePaths =
     (case zip_loop w st 0 [] imagePaths of
        Inl err \<Rightarrow> Inl err
      | Inr entries \<Rightarrow>
          (case zip_Close w entries of
             Inl e \<Rightarrow> Inl (CustomAPIError 500 (''Failed to close zip: '' @ e))
           | Inr out \<Rightarrow> Inr (entries, out)))"

definition exportZip :: "'f world \<Rightarrow> state \<Rightarrow> string list \<Rightarrow> string \<Rightarrow> converted" where
  "exportZip w st imagePaths zipFilename =
     (case CreateTemp w st [] ''slides-*.zip'' of
        (Inl e, st1) \<Rightarrow> (Inl (PlainError e), st1)
      | (Inr tmpZip, st1) \<Rightarrow>
          (case (case writeZip w st1 imagePaths of
                   Inl err \<Rightarrow> (Inl err, st1)
                 | Inr (entries, out) \<Rightarrow>
                     (let st2 = st1\<lparr>files := (files st1)(tmpZip \<mapsto> out)\<rparr>;
                          ftpPath = ftpPath_of w zipFilename
                      in case uploadToFTP w st2 tmpZip ftpPath of
                           (Some err, st3) \<Rightarrow>
                             (Inl (CustomAPIError 500 (''FTP upload failed: '' @ Error err)), st3)
                         | (None, st3) \<Rightarrow>
                             (case Stat_Size st3 tmpZip of
                                Inl err \<Rightarrow> (Inl err, st3)
                              | Inr sz \<Rightarrow> (Inr (ftpPath, sz), st3)))) of
             (r, st4) \<Rightarrow> (r, Remove st4 tmpZip)))"

definition ConvertURLsToZip ::
  "'f world \<Rightarrow> nat list \<Rightarrow> state \<Rightarrow> string list \<Rightarrow> string \<Rightarrow> converted option" where
  "ConvertURLsToZip w choices st imageURLs zipFilename =
     (case fetchImagesConcurrently w choices st imageURLs 10 of
        None \<Rightarrow> None
      | Some (Inl err, st1) \<Rightarrow> Some (Inl err, st1)
      | Some (Inr imagePaths, st1) \<Rightarrow>
          (case exportZip w st1 imagePaths zipFilename of
             (r, st2) \<Rightarrow> Some (r, foldl Remove st2 imagePaths)))"

section \<open>The manifest\<close>

text \<open>
  \<^verbatim>\<open>strings.Fields\<close>, \<^verbatim>\<open>strings.TrimSpace\<close>, \<^verbatim>\<open>strings.HasSuffix\<close> and \<^verbatim>\<open>strconv.Atoi\<close>. White
  space is what \<^verbatim>\<open>unicode.IsSpace\<close> accepts: the six characters of ASCII, U+0085, U+00A0,
  U+1680, U+2000 to U+200A, U+2028, U+2029, U+202F, U+205F and U+3000, each in the UTF-8
  encoding a Go string has. Every encoding starts with a byte that no encoding continues
  with, so the white space of a string is found by matching the encodings byte by byte, from
  the left, and from the right for the trailing white space.
  \<^verbatim>\<open>Atoi\<close> reads an optional sign and decimal digits, and fails outside the 64-bit range.
\<close>

definition space_runes :: "string list" where
  "space_runes =
     [[CHR 0x09], [CHR 0x0A], [CHR 0x0B], [CHR 0x0C], [CHR 0x0D], [CHR 0x20],
      [CHR 0xC2, CHR 0x85], [CHR 0xC2, CHR 0xA0],
      [CHR 0xE1, CHR 0x9A, CHR 0x80],
      [CHR 0xE2, CHR 0x80, CHR 0x80], [CHR 0xE2, CHR 0x80, CHR 0x81],
      [CHR 0xE2, CHR 0x80, CHR 0x82], [CHR 0xE2, CHR 0x80, CHR 0x83],
      [CHR 0xE2, CHR 0x80, CHR 0x84], [CHR 0xE2, CHR 0x80, CHR 0x85],
      [CHR 0xE2, CHR 0x80, CHR 0x86], [CHR 0xE2, CHR 0x80, CHR 0x87],
      [CHR 0xE2, CHR 0x80, CHR 0x88], [CHR 0xE2, CHR 0x80, CHR 0x89],
      [CHR 0xE2, CHR 0x80, CHR 0x8A],
      [CHR 0xE2, CHR 0x80, CHR 0xA8], [CHR 0xE2, CHR 0x80, CHR 0xA9],
      [CHR 0xE2, CHR 0x80, CHR 0xAF], [CHR 0xE2, CHR 0x81, CHR 0x9F],
      [CHR 0xE3, CHR 0x80, CHR 0x80]]"

text \<open>The number of bytes of the white space character the string starts with; 0 when it
  starts with none. \<open>runes\<close> are the encodings (reversed, for a string read from its end).\<close>

definition space_prefix :: "string list \<Rightarrow> string \<Rightarrow> nat" where
  "space_prefix runes s =
     (case List.find (\<lambda>r. take (length r) s = r) runes of
        Some r \<Rightarrow> length r
      | None \<Rightarrow> 0)"

text \<open>\<open>skip\<close> counts the bytes still to pass of the white space character being read.\<close>

fun fields_from :: "string \<Rightarrow> nat \<Rightarrow> string \<Rightarrow> string list" where
  "fields_from cur skip [] = (if cur = [] then [] else [cur])"
| "fields_from cur skip (c # cs) =
     (if 0 < skip then fields_from cur (skip - 1) cs
      else if 0 < space_prefix space_runes (c # cs)
      then (if cur = [] then fields_from [] (space_prefix space_runes (c # cs) - 1) cs
            else cur # fields_from [] (space_prefix space_runes (c # cs) - 1) cs)
      else fields_from (cur @ [c]) 0 cs)"

definition Fields :: "string \<Rightarrow> string list" where
  "Fields s = fields_from [] 0 s"

fun trim_left :: "string list \<Rightarrow> nat \<Rightarrow> string \<Rightarrow> string" where
  "trim_left runes skip [] = []"
| "trim_left runes skip (c # cs) =
     (if 0 < skip then trim_left runes (skip - 1) cs
      else if 0 < space_prefix runes (c # cs)
      then trim_left runes (space_prefix runes (c # cs) - 1) cs
      else c # cs)"

definition TrimSpace :: "string \<Rightarrow> string" where
  "TrimSpace s =
     rev (trim_left (map rev space_runes) 0 (rev (trim_left space_runes 0 s)))"

definition HasSuffix :: "string \<Rightarrow> string \<Rightarrow> bool" where
  "HasSuffix s suffix =
     (length suffix \<le> length s \<and> drop (length s - length suffix) s = suffix)"

definition isDigit :: "char \<Rightarrow> bool" where
  "isDigit c = (c \<in> set ''0123456789'')"

definition Atoi :: "string \<Rightarrow> int option" where
  "Atoi s =
     (let neg = (s \<noteq> [] \<and> hd s = CHR ''-'');
          ds = (if s \<noteq> [] \<and> (hd s = CHR ''-'' \<or> hd s = CHR ''+'') then tl s else s);
          v = foldl (\<lambda>a c. 10 * a + (of_char c - 48)) (0 :: int) ds;
          n = (if neg then - v else v)
      in if ds = [] \<or> \<not> list_all isDigit ds then None
         else if n < - (2 ^ 63) \<or> 2 ^ 63 \<le> n then None
         else Some n)"

text \<open>The inner loop (lines 83-95) over the sources of one \<^verbatim>\<open>srcset\<close>.\<close>

fun slide_of_sources :: "slide \<Rightarrow> string list \<Rightarrow> slide" where
  "slide_of_sources slideResolutions [] = slideResolutions"
| "slide_of_sources slideResolutions (src # rest) =
     (let parts = Fields (TrimSpace src)
      in slide_of_sources
           (if length parts = 2
            then (let urlPart = parts ! 0; res = parts ! 1
                  in if HasSuffix res ''w''
                     then (case Atoi (take (length res - 1) res) of
                             Some resolution \<Rightarrow> AList.update resolution urlPart slideResolutions
                           | None \<Rightarrow> slideResolutions)
                     else slideResolutions)
            else slideResolutions)
           rest)"

text \<open>The callback of \<^verbatim>\<open>Each\<close> (lines 75-100) over the slide elements in document order.\<close>

fun slide_images :: "slide list \<Rightarrow> string option list \<Rightarrow> slide list" where
  "slide_images allSlideImages [] = allSlideImages"
| "slide_images allSlideImages (None # rest) = slide_images allSlideImages rest"
| "slide_images allSlideImages (Some srcset # rest) =
     (let slideResolutions = slide_of_sources [] (Split srcset (CHR '',''))
      in slide_images
           (if length slideResolutions > 0 then allSlideImages @ [slideResolutions]
            else allSlideImages)
           rest)"

record slides_data =
  sd_title :: string
  sd_slides :: "slide list"

text \<open>\<^verbatim>\<open>FetchSlideImages\<close> (lines 48-110).\<close>

definition FetchSlideImages :: "'f world \<Rightarrow> state \<Rightarrow> string \<Rightarrow> (go_error + slides_data) \<times> state" where
  "FetchSlideImages w st urlStr =
     (let st1 = st\<lparr>requests := requests st @ [(''GET'', urlStr, None)],
                     sent := sent st @ replicate (http_sends w ''GET'' urlStr None) (''GET'', urlStr)\<rparr>
      in case http_Do w ''GET'' urlStr None of
           TransportError e \<Rightarrow>
             (Inl (CustomAPIError 500 ''Failed to fetch the presentation page''), st1)
         | Response status body \<Rightarrow>
             if status \<noteq> 200
             then (Inl (CustomAPIError status ''Failed to fetch the presentation page''), st1)
             else (case goquery_NewDocument w body of
                     Inl e \<Rightarrow> (Inl (CustomAPIError 500 ''Failed to parse HTML''), st1)
                   | Inr doc \<Rightarrow>
                       (let allSlideImages = slide_images [] (doc_srcsets doc)
                        in if length allSlideImages = 0
                           then (Inl (CustomAPIError 404 ''No slide images found''), st1)
                           else (Inr \<lparr>sd_title = doc_title doc, sd_slides = allSlideImages\<rparr>, st1))))"

section \<open>The orchestrator\<close>

text \<open>\<^verbatim>\<open>ValidateURL\<close> (lines 34-45); \<open>None\<close> is \<^verbatim>\<open>nil\<close>.\<close>

definition ValidateURL :: "'f world \<Rightarrow> string \<Rightarrow> go_error option" where
  "ValidateURL w urlStr =
     (case url_Parse w urlStr of
        Inl e \<Rightarrow> Some (CustomAPIError 400 ''Invalid URL'')
      | Inr u \<Rightarrow>
          if Host u \<noteq> ''www.slideshare.net''
          then Some (CustomAPIError 400 ''Invalid SlideShare URL'')
          else None)"

text \<open>
  The selection of the resolution (lines 513-534): the target width, the loop over the
  slides, the test for an empty result, and the thumbnail.
\<close>

definition target_width :: "QualityType \<Rightarrow> int" where
  "target_width qualityType = (if qualityType = SD then 638 else 2048)"

fun select_loop :: "int \<Rightarrow> string list \<Rightarrow> slide list \<Rightarrow> string list" where
  "select_loop quality highResImages [] = highResImages"
| "select_loop quality highResImages (slide # rest) =
     select_loop quality
       (case map_of slide quality of
          Some url \<Rightarrow> highResImages @ [url]
        | None \<Rightarrow> highResImages)
       rest"

definition select_resolution :: "QualityType \<Rightarrow> slide list \<Rightarrow> go_error + string list \<times> string" where
  "select_resolution qualityType slides =
     (let quality = target_width qualityType;
          highResImages = select_loop quality [] slides
      in if length highResImages = 0
         then Inl (CustomAPIError 404 (''No '' @ Itoa quality @ ''px resolution slides found''))
         else Inr (highResImages, highResImages ! 0))"

text \<open>\<^verbatim>\<open>filepath.Base\<close> on a system whose separator is \<^verbatim>\<open>/\<close>.\<close>

definition Base :: "string \<Rightarrow> string" where
  "Base path =
     (if path = [] then ''.''
      else (let p = rev (dropWhile (\<lambda>c. c = CHR ''/'') (rev path));
                b = rev (takeWhile (\<lambda>c. c \<noteq> CHR ''/'') (rev p))
            in if b = [] then ''/'' else b))"

record response_data =
  r_thumbnail :: string
  r_quality :: QualityType
  r_conversion_type :: SlidesConversionType
  r_slides_download_link :: string
  r_file_name :: string
  r_size :: int
  r_title :: string

record response =
  r_success :: bool
  r_message :: string
  r_data :: response_data

text \<open>The end of \<^verbatim>\<open>GetSlidesDownloadLink\<close> (lines 554-573), after the conversion.\<close>

definition respond ::
  "'f world \<Rightarrow> string \<Rightarrow> QualityType \<Rightarrow> SlidesConversionType \<Rightarrow> string \<Rightarrow> string \<Rightarrow>
   converted option \<Rightarrow> ((go_error + response) \<times> state) option" where
  "respond w thumbnail qualityType conversionType title message conv =
     (case conv of
        None \<Rightarrow> None
      | Some (Inl err, st) \<Rightarrow> Some (Inl err, st)
      | Some (Inr (path, sz), st) \<Rightarrow>
          Some (Inr \<lparr>r_success = True, r_message = message,
                     r_data = \<lparr>r_thumbnail = thumbnail, r_quality = qualityType,
                               r_conversion_type = conversionType,
                               r_slides_download_link = os_Getenv w ''BASE_URL'' @ ''/'' @ path,
                               r_file_name = Base path, r_size = sz, r_title = title\<rparr>\<rparr>, st))"

text \<open>
  \<^verbatim>\<open>GetSlidesDownloadLink\<close> (lines 481-574). The type assertion of line 506 holds for every
  value \<^verbatim>\<open>FetchSlideImages\<close> returns, so its error is not a branch. \<open>None\<close>: the call does not
  return.
\<close>

definition GetSlidesDownloadLink ::
  "'f world \<Rightarrow> nat list \<Rightarrow> state \<Rightarrow> string \<Rightarrow> SlidesConversionType \<Rightarrow> QualityType \<Rightarrow>
   ((go_error + response) \<times> state) option" where
  "GetSlidesDownloadLink w choices st urlStr conversionType qualityType =
     (case ValidateURL w urlStr of
        Some err \<Rightarrow> Some (Inl err, st)
      | None \<Rightarrow>
          (case url_Parse w urlStr of
             Inl e \<Rightarrow> Some (Inl (CustomAPIError 400 ''Invalid URL format''), st)
           | Inr u \<Rightarrow>
               (let pathParts = Split (Trim (Path u) ''/'') (CHR ''/'')
                in if length pathParts < 2
                   then Some (Inl (CustomAPIError 400 ''Invalid SlideShare URL format''), st)
                   else
                     (let docShort = pathParts ! (length pathParts - 2)
                      in case FetchSlideImages w st urlStr of
                           (Inl err, st1) \<Rightarrow> Some (Inl err, st1)
                         | (Inr slidesData, st1) \<Rightarrow>
                             (case select_resolution qualityType (sd_slides slidesData) of
                                Inl err \<Rightarrow> Some (Inl err, st1)
                              | Inr (highResImages, thumbnail) \<Rightarrow>
                                  if conversionType = PDF
                                  then respond w thumbnail qualityType conversionType
                                         (sd_title slidesData) ''PDF generated successfully.''
                                         (ConvertURLsToPDF w choices st1 highResImages (docShort @ ''.pdf''))
                                  else if conversionType = PPTX
                                  then respond w thumbnail qualityType conversionType
                                         (sd_title slidesData) ''PPTX generated successfully.''
                                         (ConvertURLsToPPTX w choices st1 highResImages (docShort @ ''.pptx''))
                                  else if conversionType = ImagesZip
                                  then respond w thumbnail qualityType conversionType
                                         (sd_title slidesData) ''IMAGES ZIP generated successfully.''
                                         (ConvertURLsToZip w choices st1 highResImages (docShort @ ''.zip''))
                                  else Some (Inl (CustomAPIError 400 ''Unsupported conversion type''), st1))))))"

text \<open>\<^verbatim>\<open>customErrorHandler\<close> of \<^verbatim>\<open>main.go\<close>: the status code and the detail of the reply.\<close>

definition customErrorHandler :: "go_error \<Rightarrow> int \<times> string" where
  "customErrorHandler err =
     (case err of
        CustomAPIError code detail \<Rightarrow> (code, detail)
      | PlainError m \<Rightarrow> (500, ''Internal Server Error''))"

section \<open>Notions used in the statements\<close>

text \<open>
  What a fetch task that succeeds on \<open>urlStr\<close> writes to its file: the body of the response
  with status 200, decoded, and encoded again as JPEG at quality 90; \<open>None\<close> when one of the
  three fails.
\<close>

definition normalized_jpeg :: "'f world \<Rightarrow> string \<Rightarrow> bytes option" where
  "normalized_jpeg w urlStr =
     (case http_Do w ''GET'' urlStr (Some 20) of
        TransportError e \<Rightarrow> None
      | Response status body \<Rightarrow>
          if status = 200
          then (case image_Decode w body of
                  Inl e \<Rightarrow> None
                | Inr img \<Rightarrow>
                    (case jpeg_Encode w (imaging_Clone w img) 90 of
                       Inl e \<Rightarrow> None
                     | Inr jpg \<Rightarrow> Some jpg))
          else None)"

text \<open>
  The invariant of the goroutines' run, for the tasks \<open>pending\<close>: the slots have the length of
  the input, and either some task has failed, or every task that has run has a non-empty
  path in its slot, of a file that did not exist at the start and now holds the JPEG of the
  task's URL, the paths of different tasks differ, and every other file is as at the start.
\<close>

definition fetch_inv :: "'f world \<Rightarrow> state \<Rightarrow> string list \<Rightarrow> (nat \<times> string) list \<Rightarrow> slots \<Rightarrow> bool" where
  "fetch_inv w st urls pending acc =
     (case acc of (st', results, errors) \<Rightarrow>
        length results = length urls \<and> length errors = length urls \<and>
        distinct (map fst pending) \<and> set pending \<subseteq> set (zip [0..<length urls] urls) \<and>
        remote st' = remote st \<and>
        ((\<exists>i<length urls. errors ! i \<noteq> None) \<or>
         ((\<forall>i<length urls. i \<notin> fst ` set pending \<longrightarrow>
              results ! i \<noteq> [] \<and> files st (results ! i) = None \<and>
              normalized_jpeg w (urls ! i) \<noteq> None \<and>
              files st' (results ! i) = normalized_jpeg w (urls ! i)) \<and>
          (\<forall>i<length urls. \<forall>j<length urls.
              i \<notin> fst ` set pending \<longrightarrow> j \<notin> fst ` set pending \<longrightarrow> i \<noteq> j \<longrightarrow>
              results ! i \<noteq> results ! j) \<and>
          (\<forall>p. (\<forall>i<length urls. i \<notin> fst ` set pending \<longrightarrow> results ! i \<noteq> p) \<longrightarrow>
              files st' p = files st p))))"

text \<open>
  A second invariant of the run, for environments in which the encoding does not fail: the
  slots of the pending tasks are empty, every path in a slot is of a file that did not exist
  at the start, and every file whose path is in no slot is as at the start.
\<close>

definition clean_inv :: "state \<Rightarrow> string list \<Rightarrow> (nat \<times> string) list \<Rightarrow> slots \<Rightarrow> bool" where
  "clean_inv st urls pending acc =
     (case acc of (st', results, errors) \<Rightarrow>
        length results = length urls \<and> length errors = length urls \<and>
        distinct (map fst pending) \<and> set pending \<subseteq> set (zip [0..<length urls] urls) \<and>
        (\<forall>i<length urls. i \<in> fst ` set pending \<longrightarrow> results ! i = []) \<and>
        (\<forall>i<length urls. results ! i \<noteq> [] \<longrightarrow> files st (results ! i) = None) \<and>
        (\<forall>p. p = [] \<or> p \<notin> set results \<longrightarrow> files st' p = files st p))"

text \<open>
  The name that \<^verbatim>\<open>os.CreateTemp("", "slide-*.jpg")\<close> (line 139) gives the temporary file
  when \<open>k\<close> random strings have been drawn before.
\<close>

definition slide_temp_name :: "'f world \<Rightarrow> nat \<Rightarrow> string" where
  "slide_temp_name w k = joinPath (os_TempDir w) ''slide-'' @ nextRandom w k @ ''.jpg''"

text \<open>
  A third invariant of the run, for environments in which every task succeeds: no task has
  recorded an error, every finished task has drawn one name, and the names that the pending
  tasks will draw are still free.
\<close>

definition succ_inv :: "'f world \<Rightarrow> state \<Rightarrow> string list \<Rightarrow> (nat \<times> string) list \<Rightarrow> slots \<Rightarrow> bool" where
  "succ_inv w st urls pending acc =
     (case acc of (st', results, errors) \<Rightarrow>
        length errors = length urls \<and> length pending \<le> length urls \<and>
        set pending \<subseteq> set (zip [0..<length urls] urls) \<and>
        drawn st' = drawn st + (length urls - length pending) \<and>
        (\<forall>i<length urls. errors ! i = None) \<and>
        (\<forall>k. drawn st' \<le> k \<and> k < drawn st + length urls \<longrightarrow>
             files st' (slide_temp_name w k) = None))"

section \<open>Example environments\<close>

text \<open>
  A concrete environment and a concrete state, on which the theorems below are instantiated.
  The page \<open>ex_page\<close> has two slides; \<^verbatim>\<open>http://i/1\<close> and \<^verbatim>\<open>http://i/2\<close> serve images of 4 by 3
  pixels, \<^verbatim>\<open>http://i/wide\<close> an image 65536 pixels wide, which decodes but is too large for
  the JPEG encoder, \<^verbatim>\<open>http://i/203\<close> an image with status 203, and every other URL answers
  404. Floating-point numbers are the reals here; the page is 210 by 297.
\<close>

definition ex_page :: string where
  "ex_page = ''https://www.slideshare.net/u/deck/s''"

definition ex_world :: "real world" where
  "ex_world =
     \<lparr>url_Parse = (\<lambda>s. if s = ex_page
                        then Inr \<lparr>Host = ''www.slideshare.net'', Path = ''/u/deck/s''\<rparr>
                        else if s = ''https://example.org/u/deck/s''
                        then Inr \<lparr>Host = ''example.org'', Path = ''/u/deck/s''\<rparr>
                        else if s = ''https://www.slideshare.net/deck''
                        then Inr \<lparr>Host = ''www.slideshare.net'', Path = ''/deck''\<rparr>
                        else if s = ''https://www.slideshare.net/u/gone/s''
                        then Inr \<lparr>Host = ''www.slideshare.net'', Path = ''/u/gone/s''\<rparr>
                        else Inl ''parse error''),
      http_Do = (\<lambda>m u t. if u = ex_page then Response 200 [60]
                           else if u = ''http://i/1'' then Response 200 [1]
                           else if u = ''http://i/2'' then Response 200 [2]
                           else if u = ''http://i/wide'' then Response 200 [3]
                           else if u = ''http://i/203'' then Response 203 [1]
                           else Response 404 []),
      http_sends = (\<lambda>m u t. 1),
      goquery_NewDocument = (\<lambda>b. Inr \<lparr>doc_title = ''Deck'',
                                        doc_srcsets = [Some ''http://i/1 2048w'', None,
                                                       Some ''http://i/s 638w, http://i/2 2048w'']\<rparr>),
      image_Decode = (\<lambda>b. if b = [] then Inl ''image: unknown format''
                           else Inr \<lparr>img_Width = (if b = [3] then 65536 else 4),
                                     img_Height = 3, img_Pix = b\<rparr>),
      image_DecodeConfig = (\<lambda>b. if b = [] then Inl ''image: unknown format''
                                 else Inr \<lparr>cfg_Width = 4, cfg_Height = 3\<rparr>),
      imaging_Clone = (\<lambda>img. img),
      jpeg_Encode = (\<lambda>img q. if 65536 \<le> img_Width img \<or> 65536 \<le> img_Height img
                              then Inl ''jpeg: image is too large to encode''
                              else Inr (255 # img_Pix img)),
      os_TempDir = ''/tmp'',
      nextRandom = (\<lambda>k. digits k),
      os_OpenFile_err = (\<lambda>name. None),
      os_Getenv = (\<lambda>name. ''https://dl''),
      time_Now_02012006 = ''03112026'',
      f_of_int = real_of_int,
      f_div = (\<lambda>a b. a / b),
      f_mul = (\<lambda>a b. a * b),
      f_min = min,
      pdf_GetPageSize = (\<lambda>orientation unit sz. (210, 297)),
      pdf_Output = (\<lambda>pdf contents. Inr [37, 80]),
      ppt_AddImageSlide = (\<lambda>name file. None),
      ppt_Save = (\<lambda>p. Inr [80]),
      zip_Create = (\<lambda>name. None),
      io_Copy_err = (\<lambda>name. None),
      zip_Close = (\<lambda>entries. Inr (concat (map snd entries))),
      ftp_prepare = (\<lambda>dir. None),
      ftp_Stor = (\<lambda>name file. None)\<rparr>"

definition ex_state :: state where
  "ex_state = \<lparr>files = Map.empty, drawn = 0, requests = [], sent = [], remote = []\<rparr>"

text \<open>The state after the two images have been fetched, the second one first.\<close>

definition ex_fetched :: state where
  "ex_fetched =
     \<lparr>files = [''/tmp/slide-0.jpg'' \<mapsto> [255, 2], ''/tmp/slide-1.jpg'' \<mapsto> [255, 1]],
      drawn = 2,
      requests = [(''GET'', ''http://i/2'', Some 20), (''GET'', ''http://i/1'', Some 20)],
      sent = [(''GET'', ''http://i/2''), (''GET'', ''http://i/1'')],
      remote = []\<rparr>"

text \<open>The same environment with an FTP server that refuses to store.\<close>

definition ex_world_ftp_down :: "real world" where
  "ex_world_ftp_down = ex_world\<lparr>ftp_Stor := \<lambda>name file. Some ''550 denied''\<rparr>"

section \<open>Lemmas\<close>

subsection \<open>Strings and lists\<close>

lemma digits_small: "n < 10 \<Longrightarrow> digits n = [''0123456789'' ! n]"
  by (subst digits.simps) simp

lemma digits_large: "\<not> n < 10 \<Longrightarrow> digits n = digits (n div 10) @ [''0123456789'' ! (n mod 10)]"
  by (subst digits.simps) simp





lemma select_loop_acc:
  "select_loop quality acc slides = acc @ List.map_filter (\<lambda>slide. map_of slide quality) slides"
  by (induction slides arbitrary: acc) (auto simp: List.map_filter_simps split: option.splits)

lemma remove_nth_split:
  assumes "k < length xs"
  obtains ys zs where "xs = ys @ (xs ! k) # zs" and "take k xs = ys" and "drop (Suc k) xs = zs"
  using assms id_take_nth_drop by blast

lemma remove_nth_keys:
  assumes "distinct (map fst xs)" and "k < length xs"
  shows "fst ` set (take k xs @ drop (Suc k) xs) = fst ` set xs - {fst (xs ! k)}"
    and "distinct (map fst (take k xs @ drop (Suc k) xs))"
    and "set (take k xs @ drop (Suc k) xs) \<subseteq> set xs"
proof -
  obtain ys zs x where xs: "xs = ys @ x # zs" and x: "xs ! k = x"
    and t: "take k xs = ys" and d: "drop (Suc k) xs = zs"
    using remove_nth_split [OF assms(2)] by metis
  from assms(1) have dist: "distinct (map fst (ys @ x # zs))" unfolding xs .
  show "distinct (map fst (take k xs @ drop (Suc k) xs))"
    unfolding t d using dist by auto
  show "fst ` set (take k xs @ drop (Suc k) xs) = fst ` set xs - {fst (xs ! k)}"
    unfolding t d x using dist unfolding xs by (force simp: image_iff)
  show "set (take k xs @ drop (Suc k) xs) \<subseteq> set xs"
    unfolding t d unfolding xs by auto
qed

subsection \<open>Temporary files and one fetch\<close>

lemma CreateTemp_Inr:
  assumes "CreateTemp w st dir pattern = (Inr name, st1)"
  shows "files st name = None \<and> files st1 = (files st)(name \<mapsto> []) \<and>
         requests st1 = requests st \<and> remote st1 = remote st \<and>
         name = joinPath (if dir = [] then os_TempDir w else dir) (fst (prefixAndSuffix pattern))
                  @ nextRandom w (drawn st) @ snd (prefixAndSuffix pattern)"
  using assms
  by (auto simp: CreateTemp_def Let_def split: prod.splits if_splits option.splits)

lemma CreateTemp_Inl:
  assumes "CreateTemp w st dir pattern = (Inl e, st1)"
  shows "files st1 = files st \<and> requests st1 = requests st \<and> remote st1 = remote st"
  using assms
  by (auto simp: CreateTemp_def Let_def split: prod.splits if_splits option.splits)

lemma prefixAndSuffix_slide: "prefixAndSuffix ''slide-*.jpg'' = (''slide-'', ''.jpg'')"
  by (simp add: prefixAndSuffix_def)

lemma fetchImage_Inr:
  assumes "fetchImage w st urlStr = (Inr p, st1)"
  shows "p \<noteq> []" and "files st p = None"
    and "\<exists>jpg. normalized_jpeg w urlStr = Some jpg \<and> files st1 = (files st)(p \<mapsto> jpg)"
    and "remote st1 = remote st"
  using assms
  by (auto simp: fetchImage_def normalized_jpeg_def Let_def prefixAndSuffix_slide
        dest!: CreateTemp_Inr
        split: http_result.splits if_splits sum.splits prod.splits)

lemma fetchImage_requests:
  "requests (snd (fetchImage w st urlStr)) = requests st @ [(''GET'', urlStr, Some 20)]"
  by (auto simp: fetchImage_def Let_def dest!: CreateTemp_Inr CreateTemp_Inl
        split: http_result.splits if_splits sum.splits prod.splits)

lemma fetchImage_remote: "remote (snd (fetchImage w st urlStr)) = remote st"
  by (auto simp: fetchImage_def Let_def dest!: CreateTemp_Inr CreateTemp_Inl
        split: http_result.splits if_splits sum.splits prod.splits)

subsection \<open>The run of the goroutines\<close>

lemma run_goroutines_Nil: "run_goroutines w choices [] acc = acc"
  by (subst run_goroutines.simps) simp

lemma run_goroutines_Cons:
  "run_goroutines w choices (t # ts) acc =
     run_goroutines w (tl choices)
       (take (pick choices (length (t # ts))) (t # ts) @
        drop (Suc (pick choices (length (t # ts)))) (t # ts))
       (goroutine w ((t # ts) ! pick choices (length (t # ts))) acc)"
  by (subst run_goroutines.simps) (simp add: Let_def)

lemma run_goroutines_inv:
  assumes "I pending acc"
    and "\<And>pend k a. pend \<noteq> [] \<Longrightarrow> k < length pend \<Longrightarrow> I pend a \<Longrightarrow>
           I (take k pend @ drop (Suc k) pend) (goroutine w (pend ! k) a)"
  shows "I [] (run_goroutines w choices pending acc)"
  using assms
proof (induction w choices pending acc rule: run_goroutines.induct)
  case (1 w choices pending acc)
  show ?case
  proof (cases "pending = []")
    case True
    have "run_goroutines w choices pending acc = acc"
      using True by (subst run_goroutines.simps) simp
    with 1(2) True show ?thesis by simp
  next
    case False
    define k where "k = pick choices (length pending)"
    have k: "k < length pending"
      using False by (auto simp: k_def pick_def split: list.splits)
    have eq: "run_goroutines w choices pending acc =
              run_goroutines w (tl choices) (take k pending @ drop (Suc k) pending)
                (goroutine w (pending ! k) acc)"
      using False by (subst run_goroutines.simps) (simp add: k_def Let_def)
    have step: "I (take k pending @ drop (Suc k) pending) (goroutine w (pending ! k) acc)"
      by (rule 1(3) [OF False k 1(2)])
    have "I [] (run_goroutines w (tl choices) (take k pending @ drop (Suc k) pending)
                 (goroutine w (pending ! k) acc))"
      by (rule 1(1) [OF False k_def step 1(3)])
    then show ?thesis by (simp only: eq)
  qed
qed

lemma fetch_inv_step:
  assumes ne: "pend \<noteq> []" and k: "k < length pend" and inv: "fetch_inv w st urls pend a"
  shows "fetch_inv w st urls (take k pend @ drop (Suc k) pend) (goroutine w (pend ! k) a)"
proof -
  obtain st' results errors where a: "a = (st', results, errors)"
    by (cases a) auto
  obtain i u where t: "pend ! k = (i, u)"
    by (cases "pend ! k") auto
  let ?n = "length urls"
  let ?pend' = "take k pend @ drop (Suc k) pend"
  from inv a have len: "length results = ?n" "length errors = ?n"
    and dist: "distinct (map fst pend)"
    and sub: "set pend \<subseteq> set (zip [0..<?n] urls)"
    and rem: "remote st' = remote st"
    by (auto simp: fetch_inv_def)
  have "(i, u) \<in> set pend" using k t nth_mem by metis
  with sub have "(i, u) \<in> set (zip [0..<?n] urls)" by blast
  then have i: "i < ?n" and u: "u = urls ! i"
    by (auto simp: in_set_zip)
  have iP: "i \<in> fst ` set pend"
    using \<open>(i, u) \<in> set pend\<close> by force
  have keys: "fst ` set ?pend' = fst ` set pend - {i}"
    using remove_nth_keys(1) [OF dist k] t by simp
  have dist': "distinct (map fst ?pend')"
    by (rule remove_nth_keys(2) [OF dist k])
  have sub': "set ?pend' \<subseteq> set (zip [0..<?n] urls)"
    using remove_nth_keys(3) [OF dist k] sub by blast
  obtain r st'' where f: "fetchImage w st' u = (r, st'')"
    by (cases "fetchImage w st' u") auto
  have rem': "remote st'' = remote st"
    using fetchImage_remote [of w st' u] f rem by simp
  show ?thesis
  proof (cases r)
    case (Inl e)
    then have g: "goroutine w (pend ! k) a = (st'', results, errors[i := Some e])"
      by (simp add: goroutine_def a t f)
    have "errors[i := Some e] ! i \<noteq> None"
      using i len by simp
    then have "\<exists>j<?n. errors[i := Some e] ! j \<noteq> None"
      using i by blast
    then show ?thesis
      unfolding g fetch_inv_def using len dist' sub' rem' by simp
  next
    case (Inr p)
    then have g: "goroutine w (pend ! k) a = (st'', results[i := p], errors)"
      by (simp add: goroutine_def a t f)
    show ?thesis
    proof (cases "\<exists>j<?n. errors ! j \<noteq> None")
      case True
      then show ?thesis
        unfolding g fetch_inv_def using len dist' sub' rem' by simp
    next
      case False
      with inv a have
        good: "\<And>j. j < ?n \<Longrightarrow> j \<notin> fst ` set pend \<Longrightarrow>
                 results ! j \<noteq> [] \<and> files st (results ! j) = None \<and>
                 normalized_jpeg w (urls ! j) \<noteq> None \<and>
                 files st' (results ! j) = normalized_jpeg w (urls ! j)"
        and inj: "\<And>j l. j < ?n \<Longrightarrow> l < ?n \<Longrightarrow> j \<notin> fst ` set pend \<Longrightarrow>
                 l \<notin> fst ` set pend \<Longrightarrow> j \<noteq> l \<Longrightarrow> results ! j \<noteq> results ! l"
        and frame: "\<And>q. (\<forall>j<?n. j \<notin> fst ` set pend \<longrightarrow> results ! j \<noteq> q) \<Longrightarrow>
                 files st' q = files st q"
        unfolding fetch_inv_def by auto
      from fetchImage_Inr [OF f [unfolded Inr]] obtain jpg where
        p: "p \<noteq> []" and pnew: "files st' p = None"
        and jpg: "normalized_jpeg w u = Some jpg"
        and fs: "files st'' = (files st')(p \<mapsto> jpg)"
        by auto
      have fresh: "results ! j \<noteq> p" if "j < ?n" "j \<notin> fst ` set pend" for j
        using good [OF that] pnew by auto
      have pst: "files st p = None"
        using frame [of p] fresh pnew by auto
      have old: "results[i := p] ! j = results ! j" if "j \<notin> fst ` set pend" for j
        using that iP by (metis nth_list_update_neq)
      have new: "results[i := p] ! i = p"
        using i len by simp
      have G1: "results[i := p] ! j \<noteq> [] \<and> files st (results[i := p] ! j) = None \<and>
                normalized_jpeg w (urls ! j) \<noteq> None \<and>
                files st'' (results[i := p] ! j) = normalized_jpeg w (urls ! j)"
        if "j < ?n" "j \<notin> fst ` set ?pend'" for j
      proof (cases "j = i")
        case True
        then show ?thesis using new p pst jpg u fs by simp
      next
        case False
        with that keys have jP: "j \<notin> fst ` set pend" by auto
        show ?thesis
          using good [OF that(1) jP] fresh [OF that(1) jP] old [OF jP] fs by simp
      qed
      have G2: "results[i := p] ! j \<noteq> results[i := p] ! l"
        if A: "j < ?n" "l < ?n" "j \<notin> fst ` set ?pend'" "l \<notin> fst ` set ?pend'" "j \<noteq> l" for j l
      proof -
        consider (a) "j = i" "l \<noteq> i" | (b) "l = i" "j \<noteq> i" | (c) "j \<noteq> i" "l \<noteq> i"
          using A(5) by blast
        then show ?thesis
        proof cases
          case a
          with A keys have "l \<notin> fst ` set pend" by auto
          then show ?thesis using a new old fresh [OF A(2)] by metis
        next
          case b
          with A keys have "j \<notin> fst ` set pend" by auto
          then show ?thesis using b new old fresh [OF A(1)] by metis
        next
          case c
          with A keys have "j \<notin> fst ` set pend" "l \<notin> fst ` set pend" by auto
          then show ?thesis using old inj [OF A(1,2) _ _ A(5)] by metis
        qed
      qed
      have G3: "files st'' q = files st q"
        if q: "\<forall>j<?n. j \<notin> fst ` set ?pend' \<longrightarrow> results[i := p] ! j \<noteq> q" for q
      proof -
        have "i \<notin> fst ` set ?pend'" using keys by simp
        with q i new have "q \<noteq> p" by metis
        moreover have "\<forall>j<?n. j \<notin> fst ` set pend \<longrightarrow> results ! j \<noteq> q"
          using q keys old by (metis DiffD1)
        ultimately show ?thesis using frame [of q] fs by simp
      qed
      show ?thesis
        unfolding g fetch_inv_def using len dist' sub' rem' G1 G2 G3 by simp
    qed
  qed
qed

lemma fetch_inv_init:
  "fetch_inv w st urls (zip [0..<length urls] urls)
     (st, replicate (length urls) [], replicate (length urls) None)"
proof -
  have "map fst (zip [0..<length urls] urls) = [0..<length urls]"
    by (simp add: map_fst_zip)
  moreover have "i \<in> fst ` set (zip [0..<length urls] urls)" if "i < length urls" for i
  proof -
    have "(i, urls ! i) \<in> set (zip [0..<length urls] urls)"
      using that by (auto simp: in_set_zip intro!: exI [of _ i])
    then show ?thesis by force
  qed
  ultimately show ?thesis
    by (simp add: fetch_inv_def)
qed

lemma first_error_None: "first_error es = None \<longleftrightarrow> (\<forall>i<length es. es ! i = None)"
proof (induction es rule: first_error.induct)
  case 1
  then show ?case by simp
next
  case (2 es)
  then show ?case by (auto simp: nth_Cons split: nat.splits)
next
  case (3 e es)
  then show ?case by auto
qed

lemma fetch_success:
  assumes "fetchImagesConcurrently w choices st urls m = Some (Inr paths, st1)"
  shows "length paths = length urls"
    and "\<And>i. i < length urls \<Longrightarrow>
           paths ! i \<noteq> [] \<and> files st (paths ! i) = None \<and>
           normalized_jpeg w (urls ! i) \<noteq> None \<and>
           files st1 (paths ! i) = normalized_jpeg w (urls ! i)"
    and "distinct paths"
    and "\<And>p. p \<notin> set paths \<Longrightarrow> files st1 p = files st p"
    and "remote st1 = remote st"
proof -
  let ?n = "length urls"
  obtain s results errors where run:
    "run_goroutines w choices (zip [0..<?n] urls) (st, replicate ?n [], replicate ?n None)
       = (s, results, errors)"
    by (metis prod_cases3)
  have inv: "fetch_inv w st urls [] (s, results, errors)"
    using run_goroutines_inv [of "fetch_inv w st urls" _ _ w choices,
        OF fetch_inv_init fetch_inv_step] run by metis
  from assms run have ne: "first_error errors = None" and eq: "paths = results" "st1 = s"
    by (auto simp: fetchImagesConcurrently_def split: if_splits option.splits)
  from inv have len: "length results = ?n" "length errors = ?n"
    by (auto simp: fetch_inv_def)
  from ne len have "\<not> (\<exists>i<?n. errors ! i \<noteq> None)"
    by (simp add: first_error_None)
  with inv have
    good: "\<And>j. j < ?n \<Longrightarrow>
             results ! j \<noteq> [] \<and> files st (results ! j) = None \<and>
             normalized_jpeg w (urls ! j) \<noteq> None \<and>
             files s (results ! j) = normalized_jpeg w (urls ! j)"
    and inj: "\<And>j l. j < ?n \<Longrightarrow> l < ?n \<Longrightarrow> j \<noteq> l \<Longrightarrow> results ! j \<noteq> results ! l"
    and frame: "\<And>q. (\<forall>j<?n. results ! j \<noteq> q) \<Longrightarrow> files s q = files st q"
    and rem: "remote s = remote st"
    unfolding fetch_inv_def by auto
  show "length paths = length urls" using eq len by simp
  show "paths ! i \<noteq> [] \<and> files st (paths ! i) = None \<and>
        normalized_jpeg w (urls ! i) \<noteq> None \<and>
        files st1 (paths ! i) = normalized_jpeg w (urls ! i)" if "i < length urls" for i
    using good [OF that] eq by simp
  show "distinct paths"
    using inj len eq by (auto simp: distinct_conv_nth)
  show "files st1 p = files st p" if "p \<notin> set paths" for p
  proof -
    have "\<forall>j<?n. results ! j \<noteq> p"
      using that eq len by (metis nth_mem)
    then show ?thesis using frame eq by simp
  qed
  show "remote st1 = remote st" using rem eq by simp
qed

text \<open>When every task succeeds, the fetcher returns paths.\<close>

lemma fetchImage_succeeds:
  assumes "normalized_jpeg w urlStr \<noteq> None"
    and "files st (slide_temp_name w (drawn st)) = None"
    and "os_OpenFile_err w (slide_temp_name w (drawn st)) = None"
  shows "\<exists>jpg st1. fetchImage w st urlStr = (Inr (slide_temp_name w (drawn st)), st1) \<and>
           drawn st1 = Suc (drawn st) \<and>
           files st1 = (files st)(slide_temp_name w (drawn st) \<mapsto> jpg)"
  using assms
  by (auto simp: fetchImage_def normalized_jpeg_def CreateTemp_def slide_temp_name_def
        prefixAndSuffix_slide Let_def
        split: http_result.splits sum.splits if_splits)

lemma succ_inv_step:
  assumes ok: "\<forall>u\<in>set urls. normalized_jpeg w u \<noteq> None"
    and free: "\<forall>k. drawn st \<le> k \<and> k < drawn st + length urls \<longrightarrow>
                 files st (slide_temp_name w k) = None \<and>
                 os_OpenFile_err w (slide_temp_name w k) = None"
    and uniq: "\<forall>j k. drawn st \<le> j \<and> j < k \<and> k < drawn st + length urls \<longrightarrow>
                 slide_temp_name w j \<noteq> slide_temp_name w k"
    and ne: "pend \<noteq> []" and k: "k < length pend" and inv: "succ_inv w st urls pend a"
  shows "succ_inv w st urls (take k pend @ drop (Suc k) pend) (goroutine w (pend ! k) a)"
proof -
  obtain st' results errors where a: "a = (st', results, errors)"
    by (cases a) auto
  obtain i u where t: "pend ! k = (i, u)"
    by (cases "pend ! k") auto
  let ?n = "length urls"
  let ?pend' = "take k pend @ drop (Suc k) pend"
  from inv a have len: "length errors = ?n" and lp: "length pend \<le> ?n"
    and sub: "set pend \<subseteq> set (zip [0..<?n] urls)"
    and dr: "drawn st' = drawn st + (?n - length pend)"
    and noerr: "\<forall>j<?n. errors ! j = None"
    and unused: "\<forall>j. drawn st' \<le> j \<and> j < drawn st + ?n \<longrightarrow> files st' (slide_temp_name w j) = None"
    by (auto simp: succ_inv_def)
  have mem: "(i, u) \<in> set pend" using k t nth_mem by metis
  with sub have "(i, u) \<in> set (zip [0..<?n] urls)" by blast
  then have uin: "u \<in> set urls" by (auto simp: in_set_zip)
  have lpos: "0 < length pend" using ne by simp
  have rng: "drawn st \<le> drawn st'" "drawn st' < drawn st + ?n"
    using dr lp lpos by linarith+
  have lp': "length ?pend' = length pend - 1" using k by simp
  have sub': "set ?pend' \<subseteq> set (zip [0..<?n] urls)"
    using sub by (auto dest: in_set_takeD in_set_dropD)
  have p1: "normalized_jpeg w u \<noteq> None" using ok uin by blast
  have p2: "files st' (slide_temp_name w (drawn st')) = None" using unused rng by simp
  have p3: "os_OpenFile_err w (slide_temp_name w (drawn st')) = None" using free rng by simp
  from fetchImage_succeeds [OF p1 p2 p3]
  obtain jpg st'' where f: "fetchImage w st' u = (Inr (slide_temp_name w (drawn st')), st'')"
    and d'': "drawn st'' = Suc (drawn st')"
    and fs: "files st'' = (files st')(slide_temp_name w (drawn st') \<mapsto> jpg)"
    by blast
  have g: "goroutine w (pend ! k) a = (st'', results[i := slide_temp_name w (drawn st')], errors)"
    by (simp add: goroutine_def a t f)
  have unused': "files st'' (slide_temp_name w j) = None"
    if "drawn st'' \<le> j" "j < drawn st + ?n" for j
  proof -
    have "drawn st' < j" using that d'' by simp
    with uniq rng that have "slide_temp_name w (drawn st') \<noteq> slide_temp_name w j" by simp
    moreover have "files st' (slide_temp_name w j) = None"
      using unused that d'' by simp
    ultimately show ?thesis using fs by simp
  qed
  have "drawn st'' = drawn st + (?n - length ?pend')"
    using d'' dr lp lpos lp' by linarith
  with len lp lp' sub' noerr unused' show ?thesis
    unfolding g succ_inv_def by simp
qed

lemma succ_inv_init:
  assumes "\<forall>k. drawn st \<le> k \<and> k < drawn st + length urls \<longrightarrow>
                 files st (slide_temp_name w k) = None \<and>
                 os_OpenFile_err w (slide_temp_name w k) = None"
  shows "succ_inv w st urls (zip [0..<length urls] urls)
     (st, replicate (length urls) [], replicate (length urls) None)"
  using assms by (simp add: succ_inv_def)

lemma fetch_returns_paths:
  assumes m: "1 \<le> maxConcurrency"
    and ok: "\<forall>u\<in>set urls. normalized_jpeg w u \<noteq> None"
    and free: "\<forall>k. drawn st \<le> k \<and> k < drawn st + length urls \<longrightarrow>
                 files st (slide_temp_name w k) = None \<and>
                 os_OpenFile_err w (slide_temp_name w k) = None"
    and uniq: "\<forall>j k. drawn st \<le> j \<and> j < k \<and> k < drawn st + length urls \<longrightarrow>
                 slide_temp_name w j \<noteq> slide_temp_name w k"
  shows "\<exists>paths st1. fetchImagesConcurrently w choices st urls maxConcurrency = Some (Inr paths, st1)"
proof -
  let ?n = "length urls"
  obtain s results errors where run:
    "run_goroutines w choices (zip [0..<?n] urls) (st, replicate ?n [], replicate ?n None)
       = (s, results, errors)"
    by (metis prod_cases3)
  have inv: "succ_inv w st urls [] (s, results, errors)"
    using run_goroutines_inv [of "succ_inv w st urls" _ _ w choices,
        OF succ_inv_init [OF free] succ_inv_step [OF ok free uniq]] run by metis
  then have "length errors = ?n" "\<forall>i<?n. errors ! i = None"
    by (auto simp: succ_inv_def)
  then have "first_error errors = None"
    by (simp add: first_error_None)
  with run m show ?thesis
    by (simp add: fetchImagesConcurrently_def)
qed

subsection \<open>The exporters' loops\<close>



lemma Image_AddPage:
  "Image (AddPage pdf) name x y w h =
     pdf\<lparr>pages := pages pdf @ [[\<lparr>pl_file = name, pl_x = x, pl_y = y, pl_w = w, pl_h = h\<rparr>]]\<rparr>"
  by (simp add: Image_def AddPage_def)



lemma fetchImage_Inl_files:
  assumes "fetchImage w st urlStr = (Inl e, st1)"
    and "\<forall>body img. http_Do w ''GET'' urlStr (Some 20) = Response 200 body \<longrightarrow>
           image_Decode w body = Inr img \<longrightarrow>
           \<not> isl (jpeg_Encode w (imaging_Clone w img) 90)"
  shows "files st1 = files st"
  using assms
  by (auto simp: fetchImage_def Let_def dest!: CreateTemp_Inl
        split: http_result.splits if_splits sum.splits prod.splits)

lemma files_remove_results:
  "files (remove_results st results) =
     (\<lambda>p. if p \<in> set results \<and> p \<noteq> [] then None else files st p)"
  by (induction results arbitrary: st) (auto simp: Remove_def fun_eq_iff)

lemma clean_inv_step:
  assumes enc: "\<forall>u\<in>set urls. \<forall>body img. http_Do w ''GET'' u (Some 20) = Response 200 body \<longrightarrow>
           image_Decode w body = Inr img \<longrightarrow>
           \<not> isl (jpeg_Encode w (imaging_Clone w img) 90)"
    and ne: "pend \<noteq> []" and k: "k < length pend" and inv: "clean_inv st urls pend a"
  shows "clean_inv st urls (take k pend @ drop (Suc k) pend) (goroutine w (pend ! k) a)"
proof -
  obtain st' results errors where a: "a = (st', results, errors)"
    by (cases a) auto
  obtain i u where t: "pend ! k = (i, u)"
    by (cases "pend ! k") auto
  let ?n = "length urls"
  let ?pend' = "take k pend @ drop (Suc k) pend"
  from inv a have len: "length results = ?n" "length errors = ?n"
    and dist: "distinct (map fst pend)"
    and sub: "set pend \<subseteq> set (zip [0..<?n] urls)"
    and empty: "\<And>j. j < ?n \<Longrightarrow> j \<in> fst ` set pend \<Longrightarrow> results ! j = []"
    and fresh: "\<And>j. j < ?n \<Longrightarrow> results ! j \<noteq> [] \<Longrightarrow> files st (results ! j) = None"
    and frame: "\<And>p. p = [] \<or> p \<notin> set results \<Longrightarrow> files st' p = files st p"
    by (auto simp: clean_inv_def)
  have mem: "(i, u) \<in> set pend" using k t nth_mem by metis
  with sub have "(i, u) \<in> set (zip [0..<?n] urls)" by blast
  then have i: "i < ?n" and u: "u = urls ! i"
    by (auto simp: in_set_zip)
  have uin: "u \<in> set urls" using i u by simp
  have iP: "i \<in> fst ` set pend" using mem by force
  have keys: "fst ` set ?pend' = fst ` set pend - {i}"
    using remove_nth_keys(1) [OF dist k] t by simp
  have dist': "distinct (map fst ?pend')"
    by (rule remove_nth_keys(2) [OF dist k])
  have sub': "set ?pend' \<subseteq> set (zip [0..<?n] urls)"
    using remove_nth_keys(3) [OF dist k] sub by blast
  obtain r st'' where f: "fetchImage w st' u = (r, st'')"
    by (cases "fetchImage w st' u") auto
  show ?thesis
  proof (cases r)
    case (Inl e)
    then have g: "goroutine w (pend ! k) a = (st'', results, errors[i := Some e])"
      by (simp add: goroutine_def a t f)
    have same: "files st'' = files st'"
      using fetchImage_Inl_files [OF f [unfolded Inl]] enc uin by blast
    show ?thesis
      unfolding g clean_inv_def
      using len dist' sub' keys empty fresh frame same by auto
  next
    case (Inr p)
    then have g: "goroutine w (pend ! k) a = (st'', results[i := p], errors)"
      by (simp add: goroutine_def a t f)
    from fetchImage_Inr [OF f [unfolded Inr]] obtain jpg where
      p: "p \<noteq> []" and pnew: "files st' p = None"
      and fs: "files st'' = (files st')(p \<mapsto> jpg)"
      by auto
    have pst: "files st p = None"
    proof (cases "p \<in> set results")
      case True
      then obtain j where "j < ?n" "results ! j = p"
        using len by (metis in_set_conv_nth)
      with fresh p show ?thesis by auto
    next
      case False
      with frame [of p] pnew show ?thesis by simp
    qed
    have old_i: "results ! i = []" using empty [OF i iP] .
    have E: "results[i := p] ! j = []" if "j < ?n" "j \<in> fst ` set ?pend'" for j
      using that keys empty [of j] by auto
    have F: "files st (results[i := p] ! j) = None" if "j < ?n" "results[i := p] ! j \<noteq> []" for j
      using that fresh [of j] pst len by (cases "j = i") auto
    have G: "files st'' q = files st q" if q: "q = [] \<or> q \<notin> set (results[i := p])" for q
    proof -
      have "p \<in> set (results[i := p])"
        using i len by (simp add: set_update_memI)
      with q p have qp: "q \<noteq> p" by auto
      have "q = [] \<or> q \<notin> set results"
      proof (cases "q = []")
        case True
        then show ?thesis by simp
      next
        case False
        with q have nq: "q \<notin> set (results[i := p])" by simp
        have "q \<notin> set results"
        proof
          assume "q \<in> set results"
          then obtain j where j: "j < ?n" "results ! j = q"
            using len by (metis in_set_conv_nth)
          with False old_i have "j \<noteq> i" by auto
          with j have "results[i := p] ! j = q" by simp
          with j(1) len have "q \<in> set (results[i := p])"
            by (metis length_list_update nth_mem)
          with nq show False by simp
        qed
        then show ?thesis by simp
      qed
      from frame [OF this] fs qp show ?thesis by simp
    qed
    show ?thesis
      unfolding g clean_inv_def using len dist' sub' E F G by simp
  qed
qed

lemma clean_inv_init:
  "clean_inv st urls (zip [0..<length urls] urls)
     (st, replicate (length urls) [], replicate (length urls) None)"
  by (simp add: clean_inv_def map_fst_zip)

subsection \<open>What the conversions leave behind\<close>

lemma files_foldl_Remove:
  "files (foldl Remove st ps) = (\<lambda>p. if p \<in> set ps then None else files st p)"
  by (induction ps arbitrary: st) (auto simp: Remove_def fun_eq_iff)

lemma remote_foldl_Remove: "remote (foldl Remove st ps) = remote st"
  by (induction ps arbitrary: st) (auto simp: Remove_def)

lemma uploadToFTP_files: "files (snd (uploadToFTP w st filePath remotePath)) = files st"
  by (auto simp: uploadToFTP_def Let_def split: option.splits)

lemma uploadToFTP_remote:
  "uploadToFTP w st filePath remotePath = (None, st') \<Longrightarrow>
     \<exists>b. remote st' = remote st @ [(remotePath, b)]"
  by (auto simp: uploadToFTP_def Let_def split: option.splits)

lemma convertImagePathsToPDF_files:
  "(files (snd (convertImagePathsToPDF w st ps out)))(out := None) = (files st)(out := None)"
  by (auto simp: convertImagePathsToPDF_def split: sum.splits)

lemma convertImagePathsToPDF_remote:
  "remote (snd (convertImagePathsToPDF w st ps out)) = remote st"
  by (auto simp: convertImagePathsToPDF_def split: sum.splits)

lemma exportPDF_files: "files (snd (exportPDF w st ps name)) = files st"
proof (cases "CreateTemp w st [] ''slides-*.pdf''")
  case (Pair r st1)
  show ?thesis
  proof (cases r)
    case (Inl e)
    with Pair show ?thesis
      using CreateTemp_Inl [of w st "[]" "''slides-*.pdf''" e st1]
      by (simp add: exportPDF_def)
  next
    case (Inr tmp)
    with Pair have c: "CreateTemp w st [] ''slides-*.pdf'' = (Inr tmp, st1)" by simp
    from CreateTemp_Inr [OF c] have fresh: "files st tmp = None"
      and f1: "files st1 = (files st)(tmp \<mapsto> [])" by auto
    have "(files (snd (convertImagePathsToPDF w st1 ps tmp)))(tmp := None) = files st"
      using convertImagePathsToPDF_files [of w st1 ps tmp] f1 fresh by (auto simp: fun_eq_iff)
    then show ?thesis
      using c uploadToFTP_files [of w "snd (convertImagePathsToPDF w st1 ps tmp)" tmp "ftpPath_of w name"]
      by (auto simp: exportPDF_def Remove_def Let_def split: prod.splits option.splits sum.splits)
  qed
qed

lemma exportZip_files: "files (snd (exportZip w st ps name)) = files st"
proof (cases "CreateTemp w st [] ''slides-*.zip''")
  case (Pair r st1)
  show ?thesis
  proof (cases r)
    case (Inl e)
    with Pair show ?thesis
      using CreateTemp_Inl [of w st "[]" "''slides-*.zip''" e st1]
      by (simp add: exportZip_def)
  next
    case (Inr tmp)
    with Pair have c: "CreateTemp w st [] ''slides-*.zip'' = (Inr tmp, st1)" by simp
    from CreateTemp_Inr [OF c] have fresh: "files st tmp = None"
      and f1: "files st1 = (files st)(tmp \<mapsto> [])" by auto
    have up: "files (snd (uploadToFTP w s tmp (ftpPath_of w name))) = files s" for s
      by (rule uploadToFTP_files)
    show ?thesis
      using c f1 fresh
      by (auto simp: exportZip_def Remove_def Let_def fun_eq_iff
            split: prod.splits option.splits sum.splits
            dest!: arg_cong [where f = snd and x = "uploadToFTP _ _ _ _"]
            simp: up)
  qed
qed


lemma exportPPTX_files: "files (snd (exportPPTX w st p name)) = files st"
proof (cases "CreateTemp w st [] ''slides-*.pptx''")
  case (Pair r st1)
  show ?thesis
  proof (cases r)
    case (Inl e)
    with Pair show ?thesis
      using CreateTemp_Inl [of w st "[]" "''slides-*.pptx''" e st1]
      by (simp add: exportPPTX_def)
  next
    case (Inr tmp)
    with Pair have c: "CreateTemp w st [] ''slides-*.pptx'' = (Inr tmp, st1)" by simp
    from CreateTemp_Inr [OF c] have fresh: "files st tmp = None"
      and f1: "files st1 = (files st)(tmp \<mapsto> [])" by auto
    have up: "files (snd (uploadToFTP w s tmp (ftpPath_of w name))) = files s" for s
      by (rule uploadToFTP_files)
    show ?thesis
      using c f1 fresh
      by (auto simp: exportPPTX_def Remove_def Let_def fun_eq_iff
            split: prod.splits option.splits sum.splits
            dest!: arg_cong [where f = snd and x = "uploadToFTP _ _ _ _"]
            simp: up)
  qed
qed

lemma fetched_then_removed:
  assumes f: "fetchImagesConcurrently w choices st urls m = Some (Inr paths, st1)"
    and e: "files st2 = files st1"
  shows "files (foldl Remove st2 paths) = files st"
    and "\<forall>p\<in>set paths. files (foldl Remove st2 paths) p = None"
    and "\<forall>tmp. files st1 tmp = None \<longrightarrow> files (foldl Remove st2 paths) tmp = None"
proof -
  note fs = fetch_success [OF f]
  have old: "files st p = None" if "p \<in> set paths" for p
    using that fs(1,2) by (metis in_set_conv_nth)
  show 1: "files (foldl Remove st2 paths) = files st"
    using old fs(4) e by (auto simp: files_foldl_Remove fun_eq_iff)
  show "\<forall>p\<in>set paths. files (foldl Remove st2 paths) p = None"
    by (simp add: files_foldl_Remove)
  show "\<forall>tmp. files st1 tmp = None \<longrightarrow> files (foldl Remove st2 paths) tmp = None"
    using e by (simp add: files_foldl_Remove)
qed

lemma Remove_remote: "remote (Remove st name) = remote st"
  by (simp add: Remove_def)

lemma publish_Inr:
  assumes "(case uploadToFTP w st2 tmp ftpPath of
              (Some err, st3) \<Rightarrow> (Inl (mk err), st3)
            | (None, st3) \<Rightarrow>
                (case Stat_Size st3 tmp of
                   Inl err \<Rightarrow> (Inl err, st3)
                 | Inr sz \<Rightarrow> (Inr (ftpPath, sz), st3))) = (Inr (path, sz'), st4)"
  shows "path = ftpPath \<and> (\<exists>b. remote st4 = remote st2 @ [(path, b)])"
proof -
  obtain e st3 where up: "uploadToFTP w st2 tmp ftpPath = (e, st3)"
    by (cases "uploadToFTP w st2 tmp ftpPath") auto
  show ?thesis
  proof (cases e)
    case (Some err)
    with assms up show ?thesis by simp
  next
    case None
    with up have u: "uploadToFTP w st2 tmp ftpPath = (None, st3)" by simp
    from assms u have "path = ftpPath" "st4 = st3"
      by (auto split: sum.splits)
    with uploadToFTP_remote [OF u] show ?thesis by simp
  qed
qed

lemma exportPDF_Inr:
  assumes "exportPDF w st ps name = (Inr (path, sz), st')"
  shows "path = ftpPath_of w name \<and> (\<exists>b. remote st' = remote st @ [(path, b)])"
proof -
  obtain r0 st1 where c0: "CreateTemp w st [] ''slides-*.pdf'' = (r0, st1)"
    by (cases "CreateTemp w st [] ''slides-*.pdf''") auto
  from assms c0 obtain tmp where c: "CreateTemp w st [] ''slides-*.pdf'' = (Inr tmp, st1)"
    by (cases r0) (auto simp: exportPDF_def)
  from CreateTemp_Inr [OF c] have r1: "remote st1 = remote st" by simp
  obtain e st2 where cv: "convertImagePathsToPDF w st1 ps tmp = (e, st2)"
    by (cases "convertImagePathsToPDF w st1 ps tmp") auto
  have r2: "remote st2 = remote st1"
    using convertImagePathsToPDF_remote [of w st1 ps tmp] cv by simp
  from assms c cv have e: "e = None"
    by (cases e) (auto simp: exportPDF_def)
  obtain r st4 where
    pub: "(case uploadToFTP w st2 tmp (ftpPath_of w name) of
              (Some err, st3) \<Rightarrow> (Inl (CustomAPIError 500 (''FTP upload failed: '' @ Error err)), st3)
            | (None, st3) \<Rightarrow>
                (case Stat_Size st3 tmp of
                   Inl err \<Rightarrow> (Inl err, st3)
                 | Inr sz \<Rightarrow> (Inr (ftpPath_of w name, sz), st3))) = (r, st4)"
    using prod.exhaust by blast
  from assms c cv e pub have "r = Inr (path, sz)" "st' = Remove st4 tmp"
    by (simp_all add: exportPDF_def Let_def)
  with r1 r2 publish_Inr [OF pub [unfolded \<open>r = Inr (path, sz)\<close>]]
  show ?thesis by (auto simp: Remove_remote)
qed

lemma exportZip_Inr:
  assumes "exportZip w st ps name = (Inr (path, sz), st')"
  shows "path = ftpPath_of w name \<and> (\<exists>b. remote st' = remote st @ [(path, b)])"
proof -
  obtain r0 st1 where c0: "CreateTemp w st [] ''slides-*.zip'' = (r0, st1)"
    by (cases "CreateTemp w st [] ''slides-*.zip''") auto
  from assms c0 obtain tmp where c: "CreateTemp w st [] ''slides-*.zip'' = (Inr tmp, st1)"
    by (cases r0) (auto simp: exportZip_def)
  from CreateTemp_Inr [OF c] have r1: "remote st1 = remote st" by simp
  from assms c obtain entries out where wz: "writeZip w st1 ps = Inr (entries, out)"
    by (cases "writeZip w st1 ps") (auto simp: exportZip_def)
  define st2 where "st2 = st1\<lparr>files := (files st1)(tmp \<mapsto> out)\<rparr>"
  have r2: "remote st2 = remote st1" by (simp add: st2_def)
  obtain r st4 where
    pub: "(case uploadToFTP w st2 tmp (ftpPath_of w name) of
              (Some err, st3) \<Rightarrow> (Inl (CustomAPIError 500 (''FTP upload failed: '' @ Error err)), st3)
            | (None, st3) \<Rightarrow>
                (case Stat_Size st3 tmp of
                   Inl err \<Rightarrow> (Inl err, st3)
                 | Inr sz \<Rightarrow> (Inr (ftpPath_of w name, sz), st3))) = (r, st4)"
    using prod.exhaust by blast
  from assms c wz pub have "r = Inr (path, sz)" "st' = Remove st4 tmp"
    by (simp_all add: exportZip_def Let_def st2_def)
  with r1 r2 publish_Inr [OF pub [unfolded \<open>r = Inr (path, sz)\<close>]]
  show ?thesis by (auto simp: Remove_remote)
qed

lemma exportPPTX_Inr:
  assumes "exportPPTX w st p name = (Inr (path, sz), st')"
  shows "path = ftpPath_of w name \<and> (\<exists>b. remote st' = remote st @ [(path, b)])"
proof -
  obtain r0 st1 where c0: "CreateTemp w st [] ''slides-*.pptx'' = (r0, st1)"
    by (cases "CreateTemp w st [] ''slides-*.pptx''") auto
  from assms c0 obtain tmp where c: "CreateTemp w st [] ''slides-*.pptx'' = (Inr tmp, st1)"
    by (cases r0) (auto simp: exportPPTX_def)
  from CreateTemp_Inr [OF c] have r1: "remote st1 = remote st" by simp
  from assms c obtain out where sv: "ppt_Save w p = Inr out"
    by (cases "ppt_Save w p") (auto simp: exportPPTX_def)
  define st2 where "st2 = st1\<lparr>files := (files st1)(tmp \<mapsto> out)\<rparr>"
  have r2: "remote st2 = remote st1" by (simp add: st2_def)
  obtain r st4 where
    pub: "(case uploadToFTP w st2 tmp (ftpPath_of w name) of
              (Some err, st3) \<Rightarrow> (Inl (PlainError (''FTP upload failed: '' @ Error err)), st3)
            | (None, st3) \<Rightarrow>
                (case Stat_Size st3 tmp of
                   Inl err \<Rightarrow> (Inl err, st3)
                 | Inr sz \<Rightarrow> (Inr (ftpPath_of w name, sz), st3))) = (r, st4)"
    using prod.exhaust by blast
  from assms c sv pub have "r = Inr (path, sz)" "st' = Remove st4 tmp"
    by (simp_all add: exportPPTX_def Let_def st2_def)
  with r1 r2 publish_Inr [OF pub [unfolded \<open>r = Inr (path, sz)\<close>]]
  show ?thesis by (auto simp: Remove_remote)
qed

lemma ConvertURLsToPDF_Inr:
  assumes "ConvertURLsToPDF w choices st urls name = Some (Inr (path, sz), st')"
  shows "path = ftpPath_of w name \<and> (\<exists>b. remote st' = remote st @ [(path, b)])"
proof (cases "fetchImagesConcurrently w choices st urls 25000")
  case None
  with assms show ?thesis by (simp add: ConvertURLsToPDF_def)
next
  case (Some res)
  obtain r st1 where res: "res = (r, st1)" by (cases res) auto
  show ?thesis
  proof (cases r)
    case (Inl err)
    with assms Some res show ?thesis by (simp add: ConvertURLsToPDF_def)
  next
    case (Inr paths)
    with Some res have f: "fetchImagesConcurrently w choices st urls 25000 = Some (Inr paths, st1)"
      by simp
    obtain r2 st2 where e: "exportPDF w st1 paths name = (r2, st2)"
      by (cases "exportPDF w st1 paths name") auto
    from assms f e have "r2 = Inr (path, sz)" "st' = foldl Remove st2 paths"
      by (auto simp: ConvertURLsToPDF_def split: if_splits)
    with fetch_success(5) [OF f] exportPDF_Inr [of w st1 paths name path sz st2] e
    show ?thesis by (auto simp: remote_foldl_Remove)
  qed
qed

lemma ConvertURLsToZip_Inr:
  assumes "ConvertURLsToZip w choices st urls name = Some (Inr (path, sz), st')"
  shows "path = ftpPath_of w name \<and> (\<exists>b. remote st' = remote st @ [(path, b)])"
proof (cases "fetchImagesConcurrently w choices st urls 10")
  case None
  with assms show ?thesis by (simp add: ConvertURLsToZip_def)
next
  case (Some res)
  obtain r st1 where res: "res = (r, st1)" by (cases res) auto
  show ?thesis
  proof (cases r)
    case (Inl err)
    with assms Some res show ?thesis by (simp add: ConvertURLsToZip_def)
  next
    case (Inr paths)
    with Some res have f: "fetchImagesConcurrently w choices st urls 10 = Some (Inr paths, st1)"
      by simp
    obtain r2 st2 where e: "exportZip w st1 paths name = (r2, st2)"
      by (cases "exportZip w st1 paths name") auto
    from assms f e have "r2 = Inr (path, sz)" "st' = foldl Remove st2 paths"
      by (auto simp: ConvertURLsToZip_def)
    with fetch_success(5) [OF f] exportZip_Inr [of w st1 paths name path sz st2] e
    show ?thesis by (auto simp: remote_foldl_Remove)
  qed
qed

lemma ConvertURLsToPPTX_Inr:
  assumes "ConvertURLsToPPTX w choices st urls name = Some (Inr (path, sz), st')"
  shows "path = ftpPath_of w name \<and> (\<exists>b. remote st' = remote st @ [(path, b)])"
proof (cases "fetchImagesConcurrently w choices st urls 10")
  case None
  with assms show ?thesis by (simp add: ConvertURLsToPPTX_def)
next
  case (Some res)
  obtain r st1 where res: "res = (r, st1)" by (cases res) auto
  show ?thesis
  proof (cases r)
    case (Inl err)
    with assms Some res show ?thesis by (simp add: ConvertURLsToPPTX_def)
  next
    case (Inr paths)
    with Some res have f: "fetchImagesConcurrently w choices st urls 10 = Some (Inr paths, st1)"
      by simp
    show ?thesis
    proof (cases "pptx_loop w st1 [] paths")
      case (Inl err)
      with assms f show ?thesis by (simp add: ConvertURLsToPPTX_def)
    next
      case (Inr p)
      obtain r2 st2 where e: "exportPPTX w st1 p name = (r2, st2)"
        by (cases "exportPPTX w st1 p name") auto
      from assms f Inr e have "r2 = Inr (path, sz)" "st' = foldl Remove st2 paths"
        by (auto simp: ConvertURLsToPPTX_def)
      with fetch_success(5) [OF f] exportPPTX_Inr [of w st1 p name path sz st2] e
      show ?thesis by (auto simp: remote_foldl_Remove)
    qed
  qed
qed

lemma FetchSlideImages_remote: "remote (snd (FetchSlideImages w st urlStr)) = remote st"
  by (auto simp: FetchSlideImages_def Let_def split: http_result.splits sum.splits)

lemma respond_Inr:
  assumes "respond w thumbnail q ct title message conv = Some (Inr resp, st')"
  shows "\<exists>path sz. conv = Some (Inr (path, sz), st') \<and>
           r_slides_download_link (r_data resp) = os_Getenv w ''BASE_URL'' @ ''/'' @ path"
  using assms
  by (auto simp: respond_def split: option.splits prod.splits sum.splits)

subsection \<open>Evaluation on the examples\<close>

lemmas ex_simps = ex_world_def ex_state_def ex_page_def fetchImagesConcurrently_def
  run_goroutines_Nil run_goroutines_Cons goroutine_def fetchImage_def CreateTemp_def
  prefixAndSuffix_def joinPath_def pick_def Remove_def digits_small digits_large Let_def

lemmas ex_convert_simps = ConvertURLsToPDF_def ConvertURLsToZip_def ConvertURLsToPPTX_def
  exportPDF_def exportZip_def exportPPTX_def writeZip_def convertImagePathsToPDF_def
  uploadToFTP_def Stat_Size_def ftpPath_of_def New_def Image_AddPage Split_def Itoa_def

lemma ex_source_1: "slide_of_sources [] (Split ''http://i/1 2048w'' (CHR '','')) = [(2048, ''http://i/1'')]"
proof -
  have "Split ''http://i/1 2048w'' (CHR '','') = [''http://i/1 2048w'']"
    by (simp add: Split_def)
  moreover have "Fields (TrimSpace ''http://i/1 2048w'') = [''http://i/1'', ''2048w'']"
    by (simp add: Fields_def TrimSpace_def space_prefix_def space_runes_def)
  moreover have "HasSuffix ''2048w'' ''w''"
    by (simp add: HasSuffix_def)
  moreover have "Atoi ''2048'' = Some 2048"
    by (simp add: Atoi_def isDigit_def Let_def)
  ultimately show ?thesis by (simp add: Let_def)
qed

lemma ex_source_2:
  "slide_of_sources [] (Split ''http://i/s 638w, http://i/2 2048w'' (CHR '','')) =
     [(638, ''http://i/s''), (2048, ''http://i/2'')]"
proof -
  have "Split ''http://i/s 638w, http://i/2 2048w'' (CHR '','') = [''http://i/s 638w'', '' http://i/2 2048w'']"
    by (simp add: Split_def)
  moreover have "Fields (TrimSpace ''http://i/s 638w'') = [''http://i/s'', ''638w'']"
    "Fields (TrimSpace '' http://i/2 2048w'') = [''http://i/2'', ''2048w'']"
    by (simp_all add: Fields_def TrimSpace_def space_prefix_def space_runes_def)
  moreover have "HasSuffix ''2048w'' ''w''" "HasSuffix ''638w'' ''w''"
    by (simp_all add: HasSuffix_def)
  moreover have "Atoi ''2048'' = Some 2048" "Atoi ''638'' = Some 638"
    by (simp_all add: Atoi_def isDigit_def Let_def)
  ultimately show ?thesis by (simp add: Let_def)
qed

lemma ex_slides:
  "slide_images [] [Some ''http://i/1 2048w'', None, Some ''http://i/s 638w, http://i/2 2048w''] =
     [[(2048, ''http://i/1'')], [(638, ''http://i/s''), (2048, ''http://i/2'')]]"
  by (simp add: ex_source_1 ex_source_2 Let_def)

lemma ex_FetchSlideImages:
  "FetchSlideImages ex_world ex_state ex_page =
     (Inr \<lparr>sd_title = ''Deck'',
           sd_slides = [[(2048, ''http://i/1'')], [(638, ''http://i/s''), (2048, ''http://i/2'')]]\<rparr>,
      ex_state\<lparr>requests := [(''GET'', ex_page, None)], sent := [(''GET'', ex_page)]\<rparr>)"
  by (simp add: FetchSlideImages_def ex_world_def ex_source_1 ex_source_2 Let_def) (simp add: ex_state_def)

lemma ex_select:
  "select_resolution HD [[(2048, ''http://i/1'')], [(638, ''http://i/s''), (2048, ''http://i/2'')]] =
     Inr ([''http://i/1'', ''http://i/2''], ''http://i/1'')"
  by (simp add: select_resolution_def target_width_def HD_def SD_def Let_def)

lemma ex_pipeline:
  "map_option (\<lambda>r. (map_sum id (\<lambda>x. r_slides_download_link (r_data x)) (fst r), remote (snd r)))
     (GetSlidesDownloadLink ex_world [Suc 0] ex_state ex_page PDF HD) =
   Some (Inr ''https://dl/SS_DL/03112026/deck.pdf'', [(''SS_DL/03112026/deck.pdf'', [37, 80])])"
proof -
  have p: "url_Parse ex_world ex_page = Inr \<lparr>Host = ''www.slideshare.net'', Path = ''/u/deck/s''\<rparr>"
    by (simp add: ex_world_def)
  have v: "ValidateURL ex_world ex_page = None"
    by (simp add: ValidateURL_def p)
  have s: "Split (Trim ''/u/deck/s'' ''/'') (CHR ''/'') = [''u'', ''deck'', ''s'']"
    by (simp add: Split_def Trim_def)
  have f: "fetchImagesConcurrently ex_world [Suc 0] (ex_state\<lparr>requests := [(''GET'', ex_page, None)], sent := [(''GET'', ex_page)]\<rparr>)
             [''http://i/1'', ''http://i/2''] 25000 =
           Some (Inr [''/tmp/slide-1.jpg'', ''/tmp/slide-0.jpg''],
                 ex_fetched\<lparr>requests := (''GET'', ex_page, None) # requests ex_fetched,
                            sent := (''GET'', ex_page) # sent ex_fetched\<rparr>)"
    by (simp add: ex_simps ex_fetched_def)
  have c: "map_option (\<lambda>r. (fst r, remote (snd r)))
             (ConvertURLsToPDF ex_world [Suc 0] (ex_state\<lparr>requests := [(''GET'', ex_page, None)], sent := [(''GET'', ex_page)]\<rparr>)
                [''http://i/1'', ''http://i/2''] ''deck.pdf'') =
           Some (Inr (''SS_DL/03112026/deck.pdf'', 2), [(''SS_DL/03112026/deck.pdf'', [37, 80])])"
    unfolding ConvertURLsToPDF_def f
    by (simp add: ex_world_def ex_fetched_def ex_convert_simps remote_foldl_Remove
          CreateTemp_def prefixAndSuffix_def joinPath_def digits_small Let_def Remove_def)
  obtain r st' where c': "ConvertURLsToPDF ex_world [Suc 0] (ex_state\<lparr>requests := [(''GET'', ex_page, None)], sent := [(''GET'', ex_page)]\<rparr>)
                [''http://i/1'', ''http://i/2''] ''deck.pdf'' = Some (Inr (''SS_DL/03112026/deck.pdf'', 2), st')"
    and r: "remote st' = [(''SS_DL/03112026/deck.pdf'', [37, 80])]"
    using c by (auto simp: map_option_eq_Some)
  show ?thesis
    by (simp add: GetSlidesDownloadLink_def v p s ex_FetchSlideImages ex_select Let_def PDF_def
          respond_def c' r)
       (simp add: ex_world_def)
qed

section \<open>The claims\<close>

text \<open>
  C1 (not what the code does). The claim: when a task fails, the fetcher returns an error
  only and every temporary file that any task created is deleted, also the file of a task
  that failed after creating it. On the example, the first URL is fetched into
  \<^verbatim>\<open>/tmp/slide-0.jpg\<close>; the second serves an image that decodes and is too wide for the JPEG
  encoder, so its task creates \<^verbatim>\<open>/tmp/slide-1.jpg\<close> and then fails (line 148) without putting
  the path into its slot. The call returns the error with status 500 and removes
  \<^verbatim>\<open>/tmp/slide-0.jpg\<close>, but \<^verbatim>\<open>/tmp/slide-1.jpg\<close>, which did not exist before, is still
  there (empty) when it returns.
\<close>

theorem fetch_leak:
  "http_Do ex_world ''GET'' ''http://i/wide'' (Some 20) = Response 200 [3] \<and>
   image_Decode ex_world [3] = Inr \<lparr>img_Width = 65536, img_Height = 3, img_Pix = [3]\<rparr> \<and>
   jpeg_Encode ex_world (imaging_Clone ex_world \<lparr>img_Width = 65536, img_Height = 3, img_Pix = [3]\<rparr>) 90 =
     Inl ''jpeg: image is too large to encode'' \<and>
   map_option fst (fetchImagesConcurrently ex_world [] ex_state [''http://i/1'', ''http://i/wide''] 10) =
     Some (Inl (CustomAPIError 500 ''Failed to fetch images: jpeg: image is too large to encode'')) \<and>
   files ex_state ''/tmp/slide-1.jpg'' = None \<and>
   map_option (\<lambda>r. files (snd r) ''/tmp/slide-1.jpg'')
     (fetchImagesConcurrently ex_world [] ex_state [''http://i/1'', ''http://i/wide''] 10) = Some (Some []) \<and>
   map_option (\<lambda>r. files (snd r) ''/tmp/slide-0.jpg'')
     (fetchImagesConcurrently ex_world [] ex_state [''http://i/1'', ''http://i/wide''] 10) = Some None"
  by (simp add: ex_simps)

text \<open>
  What the cleanup does achieve. When no URL of the list has an image that decodes and then
  fails to encode, and the fetcher returns an error, the error has status 500 and the files
  are exactly those there were before the call: every temporary file has been removed.
\<close>

theorem fetch_failure_cleanup:
  assumes enc: "\<forall>u\<in>set urls. \<forall>body img. http_Do w ''GET'' u (Some 20) = Response 200 body \<longrightarrow>
           image_Decode w body = Inr img \<longrightarrow>
           \<not> isl (jpeg_Encode w (imaging_Clone w img) 90)"
    and f: "fetchImagesConcurrently w choices st urls maxConcurrency = Some (Inl err, st1)"
  shows "(\<exists>d. err = CustomAPIError 500 d) \<and> files st1 = files st"
proof -
  let ?n = "length urls"
  obtain s results errors where run:
    "run_goroutines w choices (zip [0..<?n] urls) (st, replicate ?n [], replicate ?n None)
       = (s, results, errors)"
    by (metis prod_cases3)
  have inv: "clean_inv st urls [] (s, results, errors)"
    using run_goroutines_inv [of "clean_inv st urls" _ _ w choices,
        OF clean_inv_init clean_inv_step [OF enc]] run by metis
  from f run have e: "\<exists>d. err = CustomAPIError 500 d" and s: "st1 = remove_results s results"
    by (auto simp: fetchImagesConcurrently_def split: if_splits option.splits)
  from inv have len: "length results = ?n"
    and fresh: "\<And>j. j < ?n \<Longrightarrow> results ! j \<noteq> [] \<Longrightarrow> files st (results ! j) = None"
    and frame: "\<And>p. p = [] \<or> p \<notin> set results \<Longrightarrow> files s p = files st p"
    by (auto simp: clean_inv_def)
  have "files (remove_results s results) p = files st p" for p
  proof (cases "p \<in> set results \<and> p \<noteq> []")
    case True
    then obtain j where "j < ?n" "results ! j = p"
      using len by (metis in_set_conv_nth)
    with fresh True show ?thesis by (auto simp: files_remove_results)
  next
    case False
    with frame [of p] show ?thesis by (auto simp: files_remove_results)
  qed
  with e s show ?thesis by (simp add: fun_eq_iff)
qed

theorem fetch_failure_cleanup_witness:
  "map_option fst (fetchImagesConcurrently ex_world [] ex_state [''http://i/1'', ''http://i/404''] 10) =
     Some (Inl (CustomAPIError 500
       ''Failed to fetch images: failed to fetch image: http://i/404 (status 404)'')) \<and>
   (\<exists>err st1. fetchImagesConcurrently ex_world [] ex_state [''http://i/1'', ''http://i/404''] 10 =
       Some (Inl err, st1) \<and> files st1 = files ex_state)"
proof -
  have a: "map_option fst (fetchImagesConcurrently ex_world [] ex_state [''http://i/1'', ''http://i/404''] 10) =
     Some (Inl (CustomAPIError 500
       ''Failed to fetch images: failed to fetch image: http://i/404 (status 404)''))"
    by (simp add: ex_simps Itoa_def)
  then obtain err st1 where
    f: "fetchImagesConcurrently ex_world [] ex_state [''http://i/1'', ''http://i/404''] 10 = Some (Inl err, st1)"
    by (auto simp: map_option_eq_Some)
  have enc: "\<forall>u\<in>set [''http://i/1'', ''http://i/404''].
      \<forall>body img. http_Do ex_world ''GET'' u (Some 20) = Response 200 body \<longrightarrow>
           image_Decode ex_world body = Inr img \<longrightarrow>
           \<not> isl (jpeg_Encode ex_world (imaging_Clone ex_world img) 90)"
    by (auto simp: ex_world_def ex_page_def)
  from fetch_failure_cleanup [OF enc f] f a show ?thesis by blast
qed

text \<open>
  C2. The bounded fetcher returns paths exactly when no task has recorded an error. With a
  ceiling of at least one task at a time (or no URL at all) the call returns, whatever the
  schedule of the goroutines (\<open>choices\<close>) and however many URLs there are. When moreover
  every URL answers with status 200 and an image that decodes and encodes, and the names of
  the temporary files to come are free and pairwise different, it returns paths. Whenever it
  returns paths, there are as many paths as URLs, and for every position \<open>i\<close> the path at
  \<open>i\<close> is a file that did not exist before and holds the image of the URL at \<open>i\<close>, fetched
  with status 200, decoded and encoded as JPEG at quality 90; the paths are pairwise
  different.
\<close>

theorem fetch_order:
  "(1 \<le> maxConcurrency \<or> urls = [] \<longrightarrow>
      (\<exists>r st1. fetchImagesConcurrently w choices st urls maxConcurrency = Some (r, st1))) \<and>
   (1 \<le> maxConcurrency \<longrightarrow>
    (\<forall>u\<in>set urls. normalized_jpeg w u \<noteq> None) \<longrightarrow>
    (\<forall>k. drawn st \<le> k \<and> k < drawn st + length urls \<longrightarrow>
         files st (slide_temp_name w k) = None \<and>
         os_OpenFile_err w (slide_temp_name w k) = None) \<longrightarrow>
    (\<forall>j k. drawn st \<le> j \<and> j < k \<and> k < drawn st + length urls \<longrightarrow>
         slide_temp_name w j \<noteq> slide_temp_name w k) \<longrightarrow>
      (\<exists>paths st1. fetchImagesConcurrently w choices st urls maxConcurrency = Some (Inr paths, st1))) \<and>
   (\<forall>paths st1. fetchImagesConcurrently w choices st urls maxConcurrency = Some (Inr paths, st1) \<longrightarrow>
      length paths = length urls \<and>
      (\<forall>i<length urls. normalized_jpeg w (urls ! i) \<noteq> None \<and>
         files st1 (paths ! i) = normalized_jpeg w (urls ! i) \<and>
         files st (paths ! i) = None) \<and>
      distinct paths)"
proof -
  have A: "\<exists>r st1. fetchImagesConcurrently w choices st urls maxConcurrency = Some (r, st1)"
    if "1 \<le> maxConcurrency \<or> urls = []"
    using that
    by (auto simp: fetchImagesConcurrently_def split: prod.splits option.splits)
  have C: "length paths = length urls \<and>
      (\<forall>i<length urls. normalized_jpeg w (urls ! i) \<noteq> None \<and>
         files st1 (paths ! i) = normalized_jpeg w (urls ! i) \<and>
         files st (paths ! i) = None) \<and>
      distinct paths"
    if f: "fetchImagesConcurrently w choices st urls maxConcurrency = Some (Inr paths, st1)"
    for paths st1
    using fetch_success [OF f] by blast
  from A C fetch_returns_paths [of maxConcurrency urls w st choices] show ?thesis
    by blast
qed

theorem fetch_order_witness:
  "normalized_jpeg ex_world ''http://i/1'' = Some [255, 1] \<and>
   normalized_jpeg ex_world ''http://i/2'' = Some [255, 2] \<and>
   slide_temp_name ex_world 0 = ''/tmp/slide-0.jpg'' \<and>
   slide_temp_name ex_world 1 = ''/tmp/slide-1.jpg'' \<and>
   files ex_state ''/tmp/slide-0.jpg'' = None \<and> files ex_state ''/tmp/slide-1.jpg'' = None \<and>
   (\<exists>paths st1. fetchImagesConcurrently ex_world [9, 4] ex_state [''http://i/1'', ''http://i/2''] 1 =
       Some (Inr paths, st1)) \<and>
   fetchImagesConcurrently ex_world [1] ex_state [''http://i/1'', ''http://i/2''] 1 =
     Some (Inr [''/tmp/slide-1.jpg'', ''/tmp/slide-0.jpg''], ex_fetched) \<and>
   files ex_fetched ''/tmp/slide-1.jpg'' = normalized_jpeg ex_world ''http://i/1'' \<and>
   files ex_fetched ''/tmp/slide-0.jpg'' = normalized_jpeg ex_world ''http://i/2'' \<and>
   map_option fst (fetchImagesConcurrently ex_world [] ex_state [''http://i/1'', ''http://i/2''] 1) =
     Some (Inr [''/tmp/slide-0.jpg'', ''/tmp/slide-1.jpg''])"
proof -
  let ?urls = "[''http://i/1'', ''http://i/2'']"
  have a: "fetchImagesConcurrently ex_world [1] ex_state ?urls 1 =
     Some (Inr [''/tmp/slide-1.jpg'', ''/tmp/slide-0.jpg''], ex_fetched)"
    by (simp add: ex_simps ex_fetched_def)
  have b: "normalized_jpeg ex_world ''http://i/1'' = Some [255, 1]"
    "normalized_jpeg ex_world ''http://i/2'' = Some [255, 2]"
    by (simp_all add: normalized_jpeg_def ex_world_def ex_page_def)
  have c: "map_option fst (fetchImagesConcurrently ex_world [] ex_state ?urls 1) =
     Some (Inr [''/tmp/slide-0.jpg'', ''/tmp/slide-1.jpg''])"
    by (simp add: ex_simps)
  have n: "slide_temp_name ex_world 0 = ''/tmp/slide-0.jpg''"
    "slide_temp_name ex_world 1 = ''/tmp/slide-1.jpg''"
    by (simp_all add: slide_temp_name_def ex_world_def joinPath_def digits_small)
  have e: "files ex_state ''/tmp/slide-0.jpg'' = None" "files ex_state ''/tmp/slide-1.jpg'' = None"
    "drawn ex_state = 0"
    by (simp_all add: ex_state_def)
  have two: "k = 0 \<or> k = 1" if "k < 2" for k :: nat
    using that by auto
  have h_ok: "\<forall>u\<in>set ?urls. normalized_jpeg ex_world u \<noteq> None"
    using b by simp
  have h_free: "\<forall>k. drawn ex_state \<le> k \<and> k < drawn ex_state + length ?urls \<longrightarrow>
         files ex_state (slide_temp_name ex_world k) = None \<and>
         os_OpenFile_err ex_world (slide_temp_name ex_world k) = None"
  proof (intro allI impI)
    fix k assume "drawn ex_state \<le> k \<and> k < drawn ex_state + length ?urls"
    then have "k = 0 \<or> k = 1" using e(3) two by simp
    then show "files ex_state (slide_temp_name ex_world k) = None \<and>
         os_OpenFile_err ex_world (slide_temp_name ex_world k) = None"
      using n e by (auto simp: ex_world_def)
  qed
  have h_uniq: "\<forall>j k. drawn ex_state \<le> j \<and> j < k \<and> k < drawn ex_state + length ?urls \<longrightarrow>
         slide_temp_name ex_world j \<noteq> slide_temp_name ex_world k"
  proof (intro allI impI)
    fix j k assume "drawn ex_state \<le> j \<and> j < k \<and> k < drawn ex_state + length ?urls"
    then have "j = 0 \<and> k = 1" using e(3) by auto
    then show "slide_temp_name ex_world j \<noteq> slide_temp_name ex_world k"
      using n by simp
  qed
  note t = fetch_order [of 1 ?urls ex_world _ ex_state]
  from t [of "[9, 4]"] h_ok h_free h_uniq have
    r: "\<exists>paths st1. fetchImagesConcurrently ex_world [9, 4] ex_state ?urls 1 = Some (Inr paths, st1)"
    by simp
  from t [of "[1]"] a have q:
    "\<And>i. i < 2 \<Longrightarrow> files ex_fetched ([''/tmp/slide-1.jpg'', ''/tmp/slide-0.jpg''] ! i) =
       normalized_jpeg ex_world (?urls ! i)"
    by simp
  from q [of 0] q [of 1] have
    "files ex_fetched ''/tmp/slide-1.jpg'' = normalized_jpeg ex_world ''http://i/1''"
    "files ex_fetched ''/tmp/slide-0.jpg'' = normalized_jpeg ex_world ''http://i/2''"
    by simp_all
  with a b c n e r show ?thesis by simp
qed

text \<open>
  C3. Resolution selection: HD is the width 2048 and SD the width 638; the result is, in the
  order of the manifest, the URL of every slide that has exactly the target width, the
  slides without it being skipped; when there is none it is the error 404 whose detail
  names the width (``No 2048px resolution slides found'', ``No 638px ...''), and otherwise
  the thumbnail is the first of these URLs.
\<close>

theorem select_resolution_spec:
  "target_width HD = 2048 \<and> target_width SD = 638 \<and>
   select_resolution q slides =
     (let urls = List.map_filter (\<lambda>slide. map_of slide (target_width q)) slides
      in if urls = []
         then Inl (CustomAPIError 404 (''No '' @ Itoa (target_width q) @ ''px resolution slides found''))
         else Inr (urls, hd urls)) \<and>
   Itoa (target_width HD) = ''2048'' \<and> Itoa (target_width SD) = ''638''"
  by (simp add: select_resolution_def select_loop_acc target_width_def HD_def SD_def Let_def
        hd_conv_nth Itoa_def digits_small digits_large)


text \<open>
  C4 (as amended). The source page, of a URL that passes validation: when its fetch ends
  in a transport error, the error that leaves the pipeline has status 500; when it completes
  with a status other than 200, the error carries that status (not 500). Both have the detail
  ``Failed to fetch the presentation page'', and the error handler replies with the status
  and the detail of the error.
\<close>

theorem page_fetch_failure_status:
  assumes "url_Parse w urlStr = Inr u" and "Host u = ''www.slideshare.net''"
    and "2 \<le> length (Split (Trim (Path u) ''/'') (CHR ''/''))"
  shows "(\<forall>e. http_Do w ''GET'' urlStr None = TransportError e \<longrightarrow>
            map_option fst (GetSlidesDownloadLink w choices st urlStr conversionType qualityType) =
              Some (Inl (CustomAPIError 500 ''Failed to fetch the presentation page''))) \<and>
         (\<forall>status body. http_Do w ''GET'' urlStr None = Response status body \<longrightarrow> status \<noteq> 200 \<longrightarrow>
            map_option fst (GetSlidesDownloadLink w choices st urlStr conversionType qualityType) =
              Some (Inl (CustomAPIError status ''Failed to fetch the presentation page'')) \<and>
            customErrorHandler (CustomAPIError status ''Failed to fetch the presentation page'') =
              (status, ''Failed to fetch the presentation page''))"
  using assms
  by (auto simp: GetSlidesDownloadLink_def ValidateURL_def FetchSlideImages_def Let_def
        customErrorHandler_def)

theorem page_fetch_failure_status_counterexample:
  "http_Do ex_world ''GET'' ''https://www.slideshare.net/u/gone/s'' None = Response 404 [] \<and>
   map_option fst (GetSlidesDownloadLink ex_world [] ex_state ''https://www.slideshare.net/u/gone/s'' PDF HD) =
     Some (Inl (CustomAPIError 404 ''Failed to fetch the presentation page'')) \<and>
   customErrorHandler (CustomAPIError 404 ''Failed to fetch the presentation page'') =
     (404, ''Failed to fetch the presentation page'') \<and>
   (404 :: int) \<noteq> 500"
  by (simp add: ex_world_def ex_state_def ex_page_def GetSlidesDownloadLink_def ValidateURL_def
        FetchSlideImages_def Let_def customErrorHandler_def Split_def Trim_def)

theorem page_fetch_failure_status_witness:
  "map_option fst (GetSlidesDownloadLink (ex_world\<lparr>http_Do := \<lambda>m u t. TransportError ''timeout''\<rparr>) []
       ex_state ex_page PDF HD) =
     Some (Inl (CustomAPIError 500 ''Failed to fetch the presentation page'')) \<and>
   map_option fst (GetSlidesDownloadLink ex_world [] ex_state ''https://www.slideshare.net/u/gone/s'' PDF HD) =
     Some (Inl (CustomAPIError 404 ''Failed to fetch the presentation page''))"
proof -
  let ?w = "ex_world\<lparr>http_Do := \<lambda>m u t. TransportError ''timeout''\<rparr>"
  have a: "url_Parse ?w ex_page = Inr \<lparr>Host = ''www.slideshare.net'', Path = ''/u/deck/s''\<rparr>"
    by (simp add: ex_world_def)
  have b: "url_Parse ex_world ''https://www.slideshare.net/u/gone/s'' =
             Inr \<lparr>Host = ''www.slideshare.net'', Path = ''/u/gone/s''\<rparr>"
    by (simp add: ex_world_def ex_page_def)
  have c: "http_Do ?w ''GET'' ex_page None = TransportError ''timeout''"
    by simp
  have d: "http_Do ex_world ''GET'' ''https://www.slideshare.net/u/gone/s'' None = Response 404 []"
    by (simp add: ex_world_def ex_page_def)
  have s1: "2 \<le> length (Split (Trim (Path \<lparr>Host = ''www.slideshare.net'', Path = ''/u/deck/s''\<rparr>) ''/'') (CHR ''/''))"
    by (simp add: Split_def Trim_def)
  have s2: "2 \<le> length (Split (Trim (Path \<lparr>Host = ''www.slideshare.net'', Path = ''/u/gone/s''\<rparr>) ''/'') (CHR ''/''))"
    by (simp add: Split_def Trim_def)
  show ?thesis
    using page_fetch_failure_status [OF a _ s1, of "[]" ex_state PDF HD] c
      page_fetch_failure_status [OF b _ s2, of "[]" ex_state PDF HD] d
    by simp
qed

text \<open>
  C5 (as amended). One fetch task calls the HTTP client exactly once, for a GET of the URL
  with a timeout of 20 seconds, and never repeats the call; how many times the client sends
  that request is the library's decision (\<open>http_sends\<close>: \<^verbatim>\<open>fasthttp\<close> sends an idempotent
  request again when its connection fails). The task fails exactly when the call ends in a
  transport error (a timeout is one), the status of the response is not 200, the body does
  not decode as an image, the temporary file cannot be created (its name is taken, or the
  file cannot be opened), or the encoding as JPEG fails. When it succeeds, its result is the
  name of the temporary file, \<^verbatim>\<open>slide-<random>.jpg\<close> in the directory for temporary files,
  which did not exist before and now holds the decoded image encoded as JPEG at quality 90;
  no other file changes.
\<close>

theorem fetchImage_spec:
  fixes w :: "'f world"
  defines "tmp st \<equiv> joinPath (os_TempDir w) ''slide-'' @ nextRandom w (drawn st) @ ''.jpg''"
  shows "requests (snd (fetchImage w st urlStr)) = requests st @ [(''GET'', urlStr, Some 20)] \<and>
    sent (snd (fetchImage w st urlStr)) =
      sent st @ replicate (http_sends w ''GET'' urlStr (Some 20)) (''GET'', urlStr) \<and>
    (isl (fst (fetchImage w st urlStr)) \<longleftrightarrow>
       (\<exists>e. http_Do w ''GET'' urlStr (Some 20) = TransportError e) \<or>
       (\<exists>status body. http_Do w ''GET'' urlStr (Some 20) = Response status body \<and> status \<noteq> 200) \<or>
       (\<exists>body e. http_Do w ''GET'' urlStr (Some 20) = Response 200 body \<and> image_Decode w body = Inl e) \<or>
       files st (tmp st) \<noteq> None \<or> os_OpenFile_err w (tmp st) \<noteq> None \<or>
       (\<exists>body img e. http_Do w ''GET'' urlStr (Some 20) = Response 200 body \<and>
          image_Decode w body = Inr img \<and> jpeg_Encode w (imaging_Clone w img) 90 = Inl e)) \<and>
    (\<forall>p. fst (fetchImage w st urlStr) = Inr p \<longrightarrow>
       p = tmp st \<and> files st p = None \<and>
       (\<exists>body img jpg. http_Do w ''GET'' urlStr (Some 20) = Response 200 body \<and>
          image_Decode w body = Inr img \<and> jpeg_Encode w (imaging_Clone w img) 90 = Inr jpg \<and>
          files (snd (fetchImage w st urlStr)) = (files st)(p \<mapsto> jpg)))"
  unfolding tmp_def
  by (cases "http_Do w ''GET'' urlStr (Some 20)")
     (auto simp: fetchImage_def CreateTemp_def prefixAndSuffix_slide Let_def
        split: sum.splits option.splits)

theorem fetchImage_spec_counterexample:
  "http_Do ex_world ''GET'' ''http://i/203'' (Some 20) = Response 203 [1] \<and>
   (200 :: int) \<le> 203 \<and> (203 :: int) < 300 \<and>
   image_Decode ex_world [1] = Inr \<lparr>img_Width = 4, img_Height = 3, img_Pix = [1]\<rparr> \<and>
   fst (fetchImage ex_world ex_state ''http://i/203'') =
     Inl (PlainError ''failed to fetch image: http://i/203 (status 203)'') \<and>
   fst (fetchImage (ex_world\<lparr>http_sends := \<lambda>m u t. 2\<rparr>) ex_state ''http://i/1'') =
     Inr ''/tmp/slide-0.jpg'' \<and>
   sent (snd (fetchImage (ex_world\<lparr>http_sends := \<lambda>m u t. 2\<rparr>) ex_state ''http://i/1'')) =
     [(''GET'', ''http://i/1''), (''GET'', ''http://i/1'')]"
  by (simp add: ex_simps Itoa_def numeral_2_eq_2)

theorem fetchImage_spec_witness:
  "fst (fetchImage ex_world ex_state ''http://i/1'') = Inr ''/tmp/slide-0.jpg'' \<and>
   requests (snd (fetchImage ex_world ex_state ''http://i/1'')) = [(''GET'', ''http://i/1'', Some 20)] \<and>
   sent (snd (fetchImage ex_world ex_state ''http://i/1'')) = [(''GET'', ''http://i/1'')] \<and>
   \<not> isl (fst (fetchImage ex_world ex_state ''http://i/1'')) \<and>
   files ex_state ''/tmp/slide-0.jpg'' = None \<and>
   files (snd (fetchImage ex_world ex_state ''http://i/1'')) ''/tmp/slide-0.jpg'' = Some [255, 1]"
proof -
  have r: "fst (fetchImage ex_world ex_state ''http://i/1'') = Inr ''/tmp/slide-0.jpg''"
    by (simp add: ex_simps)
  have h: "http_Do ex_world ''GET'' ''http://i/1'' (Some 20) = Response 200 [1]"
    "image_Decode ex_world [1] = Inr \<lparr>img_Width = 4, img_Height = 3, img_Pix = [1]\<rparr>"
    "jpeg_Encode ex_world (imaging_Clone ex_world \<lparr>img_Width = 4, img_Height = 3, img_Pix = [1]\<rparr>) 90 = Inr [255, 1]"
    "requests ex_state = []" "sent ex_state = []"
    "http_sends ex_world ''GET'' ''http://i/1'' (Some 20) = 1"
    by (simp_all add: ex_world_def ex_state_def ex_page_def)
  show ?thesis
    using fetchImage_spec [of ex_world ex_state "''http://i/1''"] r h
    by auto
qed





text \<open>
  C8. A conversion that has fetched its images (the fetcher returned paths) returns, with a
  result or an error, in a state whose files are exactly the files there were before the
  conversion started: every fetched image is deleted, and so is the export file, at whatever
  step after the fetch the conversion ends (creating the export file, building it,
  uploading it, reading its size). This holds for the PDF, the archive and the slide deck.
\<close>

theorem temporary_files_removed:
  "(\<forall>paths st1. fetchImagesConcurrently w choices st imageURLs 25000 = Some (Inr paths, st1) \<longrightarrow>
      (\<exists>r st'. ConvertURLsToPDF w choices st imageURLs filename = Some (r, st') \<and>
         files st' = files st \<and> (\<forall>p\<in>set paths. files st' p = None) \<and>
         (\<forall>tmp st2. CreateTemp w st1 [] ''slides-*.pdf'' = (Inr tmp, st2) \<longrightarrow> files st' tmp = None))) \<and>
   (\<forall>paths st1. fetchImagesConcurrently w choices st imageURLs 10 = Some (Inr paths, st1) \<longrightarrow>
      (\<exists>r st'. ConvertURLsToZip w choices st imageURLs filename = Some (r, st') \<and>
         files st' = files st \<and> (\<forall>p\<in>set paths. files st' p = None) \<and>
         (\<forall>tmp st2. CreateTemp w st1 [] ''slides-*.zip'' = (Inr tmp, st2) \<longrightarrow> files st' tmp = None)) \<and>
      (\<exists>r st'. ConvertURLsToPPTX w choices st imageURLs filename = Some (r, st') \<and>
         files st' = files st \<and> (\<forall>p\<in>set paths. files st' p = None) \<and>
         (\<forall>tmp st2. CreateTemp w st1 [] ''slides-*.pptx'' = (Inr tmp, st2) \<longrightarrow> files st' tmp = None)))"
proof -
  have fresh: "files st1 tmp = None" if "CreateTemp w st1 [] pat = (Inr tmp, st2)"
    for st1 tmp st2 pat
    using CreateTemp_Inr [OF that] by blast
  have pdf: "\<exists>r st'. ConvertURLsToPDF w choices st imageURLs filename = Some (r, st') \<and>
         files st' = files st \<and> (\<forall>p\<in>set paths. files st' p = None) \<and>
         (\<forall>tmp st2. CreateTemp w st1 [] ''slides-*.pdf'' = (Inr tmp, st2) \<longrightarrow> files st' tmp = None)"
    if f: "fetchImagesConcurrently w choices st imageURLs 25000 = Some (Inr paths, st1)"
    for paths st1
  proof -
    define res where "res = (if length paths = 0
        then (Inl (CustomAPIError 500 ''No images to convert to PDF''), st1)
        else exportPDF w st1 paths filename)"
    have e: "files (snd res) = files st1"
      by (simp add: res_def exportPDF_files)
    have c: "ConvertURLsToPDF w choices st imageURLs filename =
               Some (fst res, foldl Remove (snd res) paths)"
      using f by (simp add: ConvertURLsToPDF_def res_def split: prod.splits)
    from fetched_then_removed [OF f e] c fresh show ?thesis by blast
  qed
  have zip: "\<exists>r st'. ConvertURLsToZip w choices st imageURLs filename = Some (r, st') \<and>
         files st' = files st \<and> (\<forall>p\<in>set paths. files st' p = None) \<and>
         (\<forall>tmp st2. CreateTemp w st1 [] ''slides-*.zip'' = (Inr tmp, st2) \<longrightarrow> files st' tmp = None)"
    if f: "fetchImagesConcurrently w choices st imageURLs 10 = Some (Inr paths, st1)"
    for paths st1
  proof -
    define res where "res = exportZip w st1 paths filename"
    have e: "files (snd res) = files st1"
      by (simp add: res_def exportZip_files)
    have c: "ConvertURLsToZip w choices st imageURLs filename =
               Some (fst res, foldl Remove (snd res) paths)"
      using f by (simp add: ConvertURLsToZip_def res_def split: prod.splits)
    from fetched_then_removed [OF f e] c fresh show ?thesis by blast
  qed
  have pptx: "\<exists>r st'. ConvertURLsToPPTX w choices st imageURLs filename = Some (r, st') \<and>
         files st' = files st \<and> (\<forall>p\<in>set paths. files st' p = None) \<and>
         (\<forall>tmp st2. CreateTemp w st1 [] ''slides-*.pptx'' = (Inr tmp, st2) \<longrightarrow> files st' tmp = None)"
    if f: "fetchImagesConcurrently w choices st imageURLs 10 = Some (Inr paths, st1)"
    for paths st1
  proof -
    define res where "res = (case pptx_loop w st1 [] paths of
        Inl err \<Rightarrow> (Inl err, st1) | Inr p \<Rightarrow> exportPPTX w st1 p filename)"
    have e: "files (snd res) = files st1"
      by (simp add: res_def exportPPTX_files split: sum.splits)
    have c: "ConvertURLsToPPTX w choices st imageURLs filename =
               Some (fst res, foldl Remove (snd res) paths)"
      using f by (simp add: ConvertURLsToPPTX_def res_def split: prod.splits)
    from fetched_then_removed [OF f e] c fresh show ?thesis by blast
  qed
  from pdf zip pptx show ?thesis by blast
qed

theorem temporary_files_removed_witness:
  "fetchImagesConcurrently ex_world_ftp_down [1] ex_state [''http://i/1'', ''http://i/2''] 25000 =
     Some (Inr [''/tmp/slide-1.jpg'', ''/tmp/slide-0.jpg''], ex_fetched) \<and>
   fetchImagesConcurrently ex_world_ftp_down [1] ex_state [''http://i/1'', ''http://i/2''] 10 =
     Some (Inr [''/tmp/slide-1.jpg'', ''/tmp/slide-0.jpg''], ex_fetched) \<and>
   map_option fst (ConvertURLsToPDF ex_world_ftp_down [1] ex_state [''http://i/1'', ''http://i/2''] ''deck.pdf'') =
     Some (Inl (CustomAPIError 500 ''FTP upload failed: 550 denied'')) \<and>
   (\<exists>r st'. ConvertURLsToPDF ex_world_ftp_down [1] ex_state [''http://i/1'', ''http://i/2''] ''deck.pdf'' =
        Some (r, st') \<and> files st' = files ex_state \<and>
        files st' ''/tmp/slide-1.jpg'' = None \<and> files st' ''/tmp/slide-0.jpg'' = None \<and>
        files st' ''/tmp/slides-2.pdf'' = None) \<and>
   (\<exists>r st'. ConvertURLsToZip ex_world_ftp_down [1] ex_state [''http://i/1'', ''http://i/2''] ''deck.pdf'' =
        Some (r, st') \<and> files st' = files ex_state) \<and>
   (\<exists>r st'. ConvertURLsToPPTX ex_world_ftp_down [1] ex_state [''http://i/1'', ''http://i/2''] ''deck.pdf'' =
        Some (r, st') \<and> files st' = files ex_state)"
proof -
  have a: "fetchImagesConcurrently ex_world_ftp_down [1] ex_state [''http://i/1'', ''http://i/2''] 25000 =
     Some (Inr [''/tmp/slide-1.jpg'', ''/tmp/slide-0.jpg''], ex_fetched)"
    by (simp add: ex_world_ftp_down_def ex_simps ex_fetched_def)
  have b: "fetchImagesConcurrently ex_world_ftp_down [1] ex_state [''http://i/1'', ''http://i/2''] 10 =
     Some (Inr [''/tmp/slide-1.jpg'', ''/tmp/slide-0.jpg''], ex_fetched)"
    by (simp add: ex_world_ftp_down_def ex_simps ex_fetched_def)
  have c: "map_option fst (ConvertURLsToPDF ex_world_ftp_down [1] ex_state [''http://i/1'', ''http://i/2''] ''deck.pdf'') =
     Some (Inl (CustomAPIError 500 ''FTP upload failed: 550 denied''))"
    unfolding ConvertURLsToPDF_def a
    by (simp add: ex_world_ftp_down_def ex_world_def ex_fetched_def ex_convert_simps
          CreateTemp_def prefixAndSuffix_def joinPath_def digits_small Let_def)
  have d: "CreateTemp ex_world_ftp_down ex_fetched [] ''slides-*.pdf'' =
             (Inr ''/tmp/slides-2.pdf'',
              ex_fetched\<lparr>drawn := 3, files := (files ex_fetched)(''/tmp/slides-2.pdf'' \<mapsto> [])\<rparr>)"
    by (simp add: ex_world_ftp_down_def ex_world_def ex_fetched_def
          CreateTemp_def prefixAndSuffix_def joinPath_def digits_small Let_def)
  note t = temporary_files_removed [of ex_world_ftp_down "[1]" ex_state
      "[''http://i/1'', ''http://i/2'']" "''deck.pdf''"]
  from t a d have
    "\<exists>r st'. ConvertURLsToPDF ex_world_ftp_down [1] ex_state [''http://i/1'', ''http://i/2''] ''deck.pdf'' =
        Some (r, st') \<and> files st' = files ex_state \<and>
        files st' ''/tmp/slide-1.jpg'' = None \<and> files st' ''/tmp/slide-0.jpg'' = None \<and>
        files st' ''/tmp/slides-2.pdf'' = None"
    by fastforce
  moreover from t b have
    "\<exists>r st'. ConvertURLsToZip ex_world_ftp_down [1] ex_state [''http://i/1'', ''http://i/2''] ''deck.pdf'' =
        Some (r, st') \<and> files st' = files ex_state"
    by fastforce
  moreover from t b have
    "\<exists>r st'. ConvertURLsToPPTX ex_world_ftp_down [1] ex_state [''http://i/1'', ''http://i/2''] ''deck.pdf'' =
        Some (r, st') \<and> files st' = files ex_state"
    by fastforce
  ultimately show ?thesis using a b c by blast
qed

text \<open>
  C9. A URL that parses with a host other than \<^verbatim>\<open>www.slideshare.net\<close>, or whose path, without
  its leading and trailing slashes and split at the slashes, has fewer than two parts, is
  answered with an error of status 400 in the unchanged state: no request has been issued.
  When the pipeline succeeds, the file was stored on the server under
  \<^verbatim>\<open>SS_DL/<date>/<name><ext>\<close>, where the name is the last but one of those parts of the path
  and the extension is that of the conversion, and the download link is the base URL
  followed by that remote path.
\<close>

theorem url_validation_and_short_name:
  "(\<forall>u. url_Parse w urlStr = Inr u \<longrightarrow>
      Host u \<noteq> ''www.slideshare.net'' \<or> length (Split (Trim (Path u) ''/'') (CHR ''/'')) < 2 \<longrightarrow>
      (\<exists>d. GetSlidesDownloadLink w choices st urlStr conversionType qualityType =
             Some (Inl (CustomAPIError 400 d), st))) \<and>
   (\<forall>resp st'. GetSlidesDownloadLink w choices st urlStr conversionType qualityType = Some (Inr resp, st') \<longrightarrow>
      (\<exists>u ext b. url_Parse w urlStr = Inr u \<and> Host u = ''www.slideshare.net'' \<and>
         (let pathParts = Split (Trim (Path u) ''/'') (CHR ''/'');
              remotePath = ''SS_DL/'' @ time_Now_02012006 w @ ''/'' @
                             pathParts ! (length pathParts - 2) @ ext
          in 2 \<le> length pathParts \<and> ext \<in> set [''.pdf'', ''.pptx'', ''.zip''] \<and>
             remote st' = remote st @ [(remotePath, b)] \<and>
             r_slides_download_link (r_data resp) = os_Getenv w ''BASE_URL'' @ ''/'' @ remotePath)))"
proof -
  have bad: "\<exists>d. GetSlidesDownloadLink w choices st urlStr conversionType qualityType =
             Some (Inl (CustomAPIError 400 d), st)"
    if "url_Parse w urlStr = Inr u"
      and "Host u \<noteq> ''www.slideshare.net'' \<or> length (Split (Trim (Path u) ''/'') (CHR ''/'')) < 2"
    for u
    using that by (auto simp: GetSlidesDownloadLink_def ValidateURL_def Let_def)
  have good: "\<exists>u ext b. url_Parse w urlStr = Inr u \<and> Host u = ''www.slideshare.net'' \<and>
         (let pathParts = Split (Trim (Path u) ''/'') (CHR ''/'');
              remotePath = ''SS_DL/'' @ time_Now_02012006 w @ ''/'' @
                             pathParts ! (length pathParts - 2) @ ext
          in 2 \<le> length pathParts \<and> ext \<in> set [''.pdf'', ''.pptx'', ''.zip''] \<and>
             remote st' = remote st @ [(remotePath, b)] \<and>
             r_slides_download_link (r_data resp) = os_Getenv w ''BASE_URL'' @ ''/'' @ remotePath)"
    if g: "GetSlidesDownloadLink w choices st urlStr conversionType qualityType = Some (Inr resp, st')"
    for resp st'
  proof -
    from g obtain u where u: "url_Parse w urlStr = Inr u" and h: "Host u = ''www.slideshare.net''"
      by (cases "url_Parse w urlStr")
         (auto simp: GetSlidesDownloadLink_def ValidateURL_def split: if_splits)
    then have v: "ValidateURL w urlStr = None" by (simp add: ValidateURL_def)
    define pathParts where "pathParts = Split (Trim (Path u) ''/'') (CHR ''/'')"
    define docShort where "docShort = pathParts ! (length pathParts - 2)"
    from g u v have len: "2 \<le> length pathParts"
      by (cases "length pathParts < 2") (auto simp: GetSlidesDownloadLink_def Let_def pathParts_def)
    obtain r1 st1 where fs: "FetchSlideImages w st urlStr = (r1, st1)"
      by (cases "FetchSlideImages w st urlStr") auto
    have rem1: "remote st1 = remote st"
      using FetchSlideImages_remote [of w st urlStr] fs by simp
    from g u v len fs obtain slidesData where sd: "r1 = Inr slidesData"
      by (cases r1) (auto simp: GetSlidesDownloadLink_def Let_def pathParts_def)
    from g u v len fs sd obtain highResImages thumbnail where
      sel: "select_resolution qualityType (sd_slides slidesData) = Inr (highResImages, thumbnail)"
      by (cases "select_resolution qualityType (sd_slides slidesData)")
         (auto simp: GetSlidesDownloadLink_def Let_def pathParts_def)
    from g u v len fs sd sel have branches:
      "(conversionType = PDF \<and>
          respond w thumbnail qualityType conversionType (sd_title slidesData)
            ''PDF generated successfully.''
            (ConvertURLsToPDF w choices st1 highResImages (docShort @ ''.pdf'')) = Some (Inr resp, st')) \<or>
       (conversionType = PPTX \<and>
          respond w thumbnail qualityType conversionType (sd_title slidesData)
            ''PPTX generated successfully.''
            (ConvertURLsToPPTX w choices st1 highResImages (docShort @ ''.pptx'')) = Some (Inr resp, st')) \<or>
       (conversionType = ImagesZip \<and>
          respond w thumbnail qualityType conversionType (sd_title slidesData)
            ''IMAGES ZIP generated successfully.''
            (ConvertURLsToZip w choices st1 highResImages (docShort @ ''.zip'')) = Some (Inr resp, st'))"
      by (simp add: GetSlidesDownloadLink_def Let_def pathParts_def docShort_def split: if_splits)
    have fin: "\<exists>ext b. ext \<in> set [''.pdf'', ''.pptx'', ''.zip''] \<and>
             remote st' = remote st @ [(''SS_DL/'' @ time_Now_02012006 w @ ''/'' @ docShort @ ext, b)] \<and>
             r_slides_download_link (r_data resp) =
               os_Getenv w ''BASE_URL'' @ ''/'' @ ''SS_DL/'' @ time_Now_02012006 w @ ''/'' @ docShort @ ext"
      using branches
    proof (elim disjE conjE)
      assume "respond w thumbnail qualityType conversionType (sd_title slidesData)
            ''PDF generated successfully.''
            (ConvertURLsToPDF w choices st1 highResImages (docShort @ ''.pdf'')) = Some (Inr resp, st')"
      from respond_Inr [OF this] obtain path sz where
        c: "ConvertURLsToPDF w choices st1 highResImages (docShort @ ''.pdf'') = Some (Inr (path, sz), st')"
        and l: "r_slides_download_link (r_data resp) = os_Getenv w ''BASE_URL'' @ ''/'' @ path"
        by blast
      from ConvertURLsToPDF_Inr [OF c] l rem1 show ?thesis
        by (intro exI [of _ "''.pdf''"]) (auto simp: ftpPath_of_def)
    next
      assume "respond w thumbnail qualityType conversionType (sd_title slidesData)
            ''PPTX generated successfully.''
            (ConvertURLsToPPTX w choices st1 highResImages (docShort @ ''.pptx'')) = Some (Inr resp, st')"
      from respond_Inr [OF this] obtain path sz where
        c: "ConvertURLsToPPTX w choices st1 highResImages (docShort @ ''.pptx'') = Some (Inr (path, sz), st')"
        and l: "r_slides_download_link (r_data resp) = os_Getenv w ''BASE_URL'' @ ''/'' @ path"
        by blast
      from ConvertURLsToPPTX_Inr [OF c] l rem1 show ?thesis
        by (intro exI [of _ "''.pptx''"]) (auto simp: ftpPath_of_def)
    next
      assume "respond w thumbnail qualityType conversionType (sd_title slidesData)
            ''IMAGES ZIP generated successfully.''
            (ConvertURLsToZip w choices st1 highResImages (docShort @ ''.zip'')) = Some (Inr resp, st')"
      from respond_Inr [OF this] obtain path sz where
        c: "ConvertURLsToZip w choices st1 highResImages (docShort @ ''.zip'') = Some (Inr (path, sz), st')"
        and l: "r_slides_download_link (r_data resp) = os_Getenv w ''BASE_URL'' @ ''/'' @ path"
        by blast
      from ConvertURLsToZip_Inr [OF c] l rem1 show ?thesis
        by (intro exI [of _ "''.zip''"]) (auto simp: ftpPath_of_def)
    qed
    with u h len show ?thesis
      unfolding pathParts_def docShort_def Let_def by blast
  qed
  from bad good show ?thesis by blast
qed

theorem url_validation_and_short_name_witness:
  "GetSlidesDownloadLink ex_world [] ex_state ''https://example.org/u/deck/s'' PDF HD =
     Some (Inl (CustomAPIError 400 ''Invalid SlideShare URL''), ex_state) \<and>
   GetSlidesDownloadLink ex_world [] ex_state ''https://www.slideshare.net/deck'' PDF HD =
     Some (Inl (CustomAPIError 400 ''Invalid SlideShare URL format''), ex_state) \<and>
   Split (Trim ''/u/deck/s'' ''/'') (CHR ''/'') = [''u'', ''deck'', ''s''] \<and>
   map_option (\<lambda>r. (map_sum id (\<lambda>x. r_slides_download_link (r_data x)) (fst r), remote (snd r)))
     (GetSlidesDownloadLink ex_world [Suc 0] ex_state ex_page PDF HD) =
   Some (Inr ''https://dl/SS_DL/03112026/deck.pdf'', [(''SS_DL/03112026/deck.pdf'', [37, 80])])"
proof -
  have p1: "url_Parse ex_world ''https://example.org/u/deck/s'' =
              Inr \<lparr>Host = ''example.org'', Path = ''/u/deck/s''\<rparr>"
    and p2: "url_Parse ex_world ''https://www.slideshare.net/deck'' =
              Inr \<lparr>Host = ''www.slideshare.net'', Path = ''/deck''\<rparr>"
    by (simp_all add: ex_world_def ex_page_def)
  have h1: "Host \<lparr>Host = ''example.org'', Path = ''/u/deck/s''\<rparr> \<noteq> ''www.slideshare.net'' \<or>
            length (Split (Trim (Path \<lparr>Host = ''example.org'', Path = ''/u/deck/s''\<rparr>) ''/'') (CHR ''/'')) < 2"
    by simp
  have h2: "Host \<lparr>Host = ''www.slideshare.net'', Path = ''/deck''\<rparr> \<noteq> ''www.slideshare.net'' \<or>
            length (Split (Trim (Path \<lparr>Host = ''www.slideshare.net'', Path = ''/deck''\<rparr>) ''/'') (CHR ''/'')) < 2"
    by (simp add: Split_def Trim_def)
  note t = url_validation_and_short_name
  from t [of ex_world "''https://example.org/u/deck/s''" "[]" ex_state PDF HD] p1 h1
  have a: "\<exists>d. GetSlidesDownloadLink ex_world [] ex_state ''https://example.org/u/deck/s'' PDF HD =
             Some (Inl (CustomAPIError 400 d), ex_state)"
    by blast
  from t [of ex_world "''https://www.slideshare.net/deck''" "[]" ex_state PDF HD] p2 h2
  have b: "\<exists>d. GetSlidesDownloadLink ex_world [] ex_state ''https://www.slideshare.net/deck'' PDF HD =
             Some (Inl (CustomAPIError 400 d), ex_state)"
    by blast
  have a': "map_option fst (GetSlidesDownloadLink ex_world [] ex_state ''https://example.org/u/deck/s'' PDF HD) =
     Some (Inl (CustomAPIError 400 ''Invalid SlideShare URL''))"
    by (simp add: GetSlidesDownloadLink_def ValidateURL_def p1)
  have b': "map_option fst (GetSlidesDownloadLink ex_world [] ex_state ''https://www.slideshare.net/deck'' PDF HD) =
     Some (Inl (CustomAPIError 400 ''Invalid SlideShare URL format''))"
    by (simp add: GetSlidesDownloadLink_def ValidateURL_def p2 Split_def Trim_def Let_def)
  have s: "Split (Trim ''/u/deck/s'' ''/'') (CHR ''/'') = [''u'', ''deck'', ''s'']"
    by (simp add: Split_def Trim_def)
  from a a' have "GetSlidesDownloadLink ex_world [] ex_state ''https://example.org/u/deck/s'' PDF HD =
     Some (Inl (CustomAPIError 400 ''Invalid SlideShare URL''), ex_state)"
    by auto
  moreover from b b' have "GetSlidesDownloadLink ex_world [] ex_state ''https://www.slideshare.net/deck'' PDF HD =
     Some (Inl (CustomAPIError 400 ''Invalid SlideShare URL format''), ex_state)"
    by auto
  ultimately show ?thesis using s ex_pipeline by simp
qed

text \<open>
  C10. For a list of URLs that is not empty, a call of the fetcher that succeeds returns as
  many paths as URLs, so not none, and each path is a non-empty string. So in
  \<^verbatim>\<open>ConvertURLsToPDF\<close> the branch ``No images to convert to PDF'' (line 312) is never taken for
  such a list: the function is equal to the one without the branch. The list the orchestrator
  passes, the result of a successful selection, is not empty.
\<close>

theorem no_empty_result:
  "(imageURLs \<noteq> [] \<longrightarrow>
      (\<forall>paths st1. fetchImagesConcurrently w choices st imageURLs maxConcurrency = Some (Inr paths, st1) \<longrightarrow>
         length paths = length imageURLs \<and> length paths \<noteq> 0 \<and> (\<forall>p\<in>set paths. p \<noteq> [])) \<and>
      ConvertURLsToPDF w choices st imageURLs pdfFilename =
        (case fetchImagesConcurrently w choices st imageURLs 25000 of
           None \<Rightarrow> None
         | Some (Inl err, st1) \<Rightarrow> Some (Inl err, st1)
         | Some (Inr imagePaths, st1) \<Rightarrow>
             (case exportPDF w st1 imagePaths pdfFilename of
                (r, st2) \<Rightarrow> Some (r, foldl Remove st2 imagePaths)))) \<and>
   (\<forall>highResImages thumbnail.
      select_resolution qualityType slides = Inr (highResImages, thumbnail) \<longrightarrow> highResImages \<noteq> [])"
proof -
  have A: "length paths = length imageURLs \<and> length paths \<noteq> 0 \<and> (\<forall>p\<in>set paths. p \<noteq> [])"
    if ne: "imageURLs \<noteq> []"
      and f: "fetchImagesConcurrently w choices st imageURLs m = Some (Inr paths, st1)"
    for paths st1 m
  proof -
    note fs = fetch_success [OF f]
    have "p \<noteq> []" if "p \<in> set paths" for p
      using that fs(1,2) by (metis in_set_conv_nth)
    with fs(1) ne show ?thesis by simp
  qed
  have B: "ConvertURLsToPDF w choices st imageURLs pdfFilename =
        (case fetchImagesConcurrently w choices st imageURLs 25000 of
           None \<Rightarrow> None
         | Some (Inl err, st1) \<Rightarrow> Some (Inl err, st1)
         | Some (Inr imagePaths, st1) \<Rightarrow>
             (case exportPDF w st1 imagePaths pdfFilename of
                (r, st2) \<Rightarrow> Some (r, foldl Remove st2 imagePaths)))"
    if ne: "imageURLs \<noteq> []"
  proof (cases "fetchImagesConcurrently w choices st imageURLs 25000")
    case None
    then show ?thesis by (simp add: ConvertURLsToPDF_def)
  next
    case (Some res)
    obtain r st1 where res: "res = (r, st1)" by (cases res) auto
    show ?thesis
    proof (cases r)
      case (Inl err)
      with Some res show ?thesis by (simp add: ConvertURLsToPDF_def)
    next
      case (Inr imagePaths)
      with Some res have f: "fetchImagesConcurrently w choices st imageURLs 25000 =
          Some (Inr imagePaths, st1)" by simp
      from A [OF ne f] have "length imagePaths \<noteq> 0" by blast
      with f show ?thesis by (simp add: ConvertURLsToPDF_def)
    qed
  qed
  have C: "highResImages \<noteq> []"
    if "select_resolution qualityType slides = Inr (highResImages, thumbnail)"
    for highResImages thumbnail
    using that by (auto simp: select_resolution_def Let_def split: if_splits)
  from A B C show ?thesis by blast
qed

theorem no_empty_result_witness:
  "[''http://i/1'', ''http://i/2''] \<noteq> [] \<and>
   fetchImagesConcurrently ex_world [1] ex_state [''http://i/1'', ''http://i/2''] 25000 =
     Some (Inr [''/tmp/slide-1.jpg'', ''/tmp/slide-0.jpg''], ex_fetched) \<and>
   select_resolution HD [[(2048, ''http://i/1'')], [(638, ''http://i/s''), (2048, ''http://i/2'')]] =
     Inr ([''http://i/1'', ''http://i/2''], ''http://i/1'') \<and>
   ConvertURLsToPDF ex_world [1] ex_state [''http://i/1'', ''http://i/2''] ''deck.pdf'' =
     (case exportPDF ex_world ex_fetched [''/tmp/slide-1.jpg'', ''/tmp/slide-0.jpg''] ''deck.pdf'' of
        (r, st2) \<Rightarrow> Some (r, foldl Remove st2 [''/tmp/slide-1.jpg'', ''/tmp/slide-0.jpg''])) \<and>
   map_option fst (ConvertURLsToPDF ex_world [1] ex_state [''http://i/1'', ''http://i/2''] ''deck.pdf'') =
     Some (Inr (''SS_DL/03112026/deck.pdf'', 2))"
proof -
  have a: "fetchImagesConcurrently ex_world [1] ex_state [''http://i/1'', ''http://i/2''] 25000 =
     Some (Inr [''/tmp/slide-1.jpg'', ''/tmp/slide-0.jpg''], ex_fetched)"
    by (simp add: ex_simps ex_fetched_def)
  have b: "select_resolution HD [[(2048, ''http://i/1'')], [(638, ''http://i/s''), (2048, ''http://i/2'')]] =
     Inr ([''http://i/1'', ''http://i/2''], ''http://i/1'')"
    by (simp add: select_resolution_def target_width_def HD_def SD_def Let_def)
  have c: "map_option fst (ConvertURLsToPDF ex_world [1] ex_state [''http://i/1'', ''http://i/2''] ''deck.pdf'') =
     Some (Inr (''SS_DL/03112026/deck.pdf'', 2))"
    unfolding ConvertURLsToPDF_def a
    by (simp add: ex_world_def ex_fetched_def ex_convert_simps
          CreateTemp_def prefixAndSuffix_def joinPath_def digits_small Let_def)
  show ?thesis
    using no_empty_result [of "[''http://i/1'', ''http://i/2'']" ex_world "[1]" ex_state 25000
        "''deck.pdf''" HD "[[(2048, ''http://i/1'')], [(638, ''http://i/s''), (2048, ''http://i/2'')]]"]
      a b c
    by simp
qed

end
